theory Spec2Isabelle
  imports Main "HOL-Library.Char_ord" "HOL-Library.List_Lexorder" "HOL-Library.AList"
begin

section \<open>Strings as Python uses them\<close>

text \<open>
  A Python \<open>str\<close> is modelled as a \<open>string\<close>, a list of characters with code points
  below 256, so the length of a string is also its number of bytes. The helpers below are
  the string methods that \<open>scripts/fetch_gemini_docs.py\<close> calls.
\<close>

text \<open>\<open>s.startswith(p)\<close>\<close>

definition startswith :: "string \<Rightarrow> string \<Rightarrow> bool" where
  "startswith s p = (take (length p) s = p)"

text \<open>\<open>s.endswith(p)\<close>\<close>

definition endswith :: "string \<Rightarrow> string \<Rightarrow> bool" where
  "endswith s p = (length p \<le> length s \<and> drop (length s - length p) s = p)"

text \<open>\<open>s.replace('/', '__')\<close>: every separator becomes two underscores.\<close>

fun replace_sep :: "string \<Rightarrow> string" where
  "replace_sep [] = []"
| "replace_sep (c # cs) =
     (if c = CHR ''/'' then CHR ''_'' # CHR ''_'' # replace_sep cs else c # replace_sep cs)"

section \<open>Logical names: \<open>path_to_safe_filename\<close>\<close>

text \<open>
  \<^verbatim>\<open>
  def path_to_safe_filename(file_path):
      if file_path.startswith('docs/'):
          file_path = file_path[5:]
      if file_path.endswith('.md'):
          file_path = file_path[:-3]
      safe_name = file_path.replace('/', '__')
      return safe_name + '.md'
  \<close>
\<close>

definition strip_docs_prefix :: "string \<Rightarrow> string" where
  "strip_docs_prefix file_path =
     (if startswith file_path ''docs/'' then drop 5 file_path else file_path)"

definition strip_md_suffix :: "string \<Rightarrow> string" where
  "strip_md_suffix file_path =
     (if endswith file_path ''.md'' then take (length file_path - 3) file_path else file_path)"

definition path_to_safe_filename :: "string \<Rightarrow> string" where
  "path_to_safe_filename file_path =
     replace_sep (strip_md_suffix (strip_docs_prefix file_path)) @ ''.md''"

text \<open>
  The paths that discovery keeps: under \<open>docs/\<close> and ending in \<open>.md\<close>
  (the filter of \<open>discover_docs_from_github\<close>).
\<close>

definition is_doc_path :: "string \<Rightarrow> bool" where
  "is_doc_path path = (startswith path ''docs/'' \<and> endswith path ''.md'')"

text \<open>
  The part of a documentation path between the \<open>docs/\<close> prefix and the \<open>.md\<close> suffix.
\<close>

definition stem :: "string \<Rightarrow> string" where
  "stem path = strip_md_suffix (strip_docs_prefix path)"

text \<open>
  No underscore of the string is directly followed by an underscore or by a separator.
\<close>

fun underscores_isolated :: "string \<Rightarrow> bool" where
  "underscores_isolated [] = True"
| "underscores_isolated [c] = True"
| "underscores_isolated (c # d # cs) =
     (\<not> (c = CHR ''_'' \<and> (d = CHR ''_'' \<or> d = CHR ''/'')) \<and> underscores_isolated (d # cs))"

text \<open>
  Reading a logical name back: two underscores in a row are one separator. This function
  is not part of the script; it is the decoder against which recoverability of the origin
  path is stated.
\<close>

fun restore_sep :: "string \<Rightarrow> string" where
  "restore_sep (c # d # cs) =
     (if c = CHR ''_'' \<and> d = CHR ''_'' then CHR ''/'' # restore_sep cs
      else c # restore_sep (d # cs))"
| "restore_sep cs = cs"

definition restore_origin_path :: "string \<Rightarrow> string" where
  "restore_origin_path name = ''docs/'' @ restore_sep (strip_md_suffix name) @ ''.md''"

section \<open>Content validation: \<open>validate_markdown_content\<close>\<close>

text \<open>
  \<open>p in s\<close> for strings: \<open>p\<close> occurs in \<open>s\<close> as a contiguous substring.
\<close>

fun contains :: "string \<Rightarrow> string \<Rightarrow> bool" where
  "contains p [] = (p = [])"
| "contains p (c # cs) = (startswith (c # cs) p \<or> contains p cs)"

text \<open>
  The characters that \<open>str.strip()\<close> removes, among the code points below 256: those for
  which \<open>str.isspace()\<close> holds (tab to carriage return, the four separators 28 to 31,
  the space, NEL and the no-break space).
\<close>

definition is_space :: "char \<Rightarrow> bool" where
  "is_space c =
     (let n = (of_char c :: nat)
      in (9 \<le> n \<and> n \<le> 13) \<or> (28 \<le> n \<and> n \<le> 32) \<or> n = 133 \<or> n = 160)"

text \<open>\<open>s.strip()\<close>\<close>

definition strip :: "string \<Rightarrow> string" where
  "strip s = rev (dropWhile is_space (rev (dropWhile is_space s)))"

text \<open>\<open>s.split('\n')\<close>: never empty, one more piece than there are newlines.\<close>

fun split_lines :: "string \<Rightarrow> string list" where
  "split_lines [] = [[]]"
| "split_lines (c # cs) =
     (if c = CHR 0x0A then [] # split_lines cs
      else (case split_lines cs of
              [] \<Rightarrow> [[c]]
            | l # ls \<Rightarrow> (c # l) # ls))"

text \<open>
  The exceptions that leave a function of the script, as values. \<open>ReceivedHtml\<close>,
  \<open>ContentTooShort\<close> and \<open>NotMarkdown\<close> are the \<open>ValueError\<close>s of the validator;
  \<open>HeaderNotInt\<close> is the \<open>ValueError\<close> of \<open>int()\<close> on a header that is no integer;
  \<open>NegativeSleep\<close> is the \<open>ValueError\<close> and \<open>SleepOverflow\<close> the \<open>OverflowError\<close> of
  \<open>time.sleep\<close>; \<open>AttributeError\<close> is raised by \<open>.get\<close> or \<open>.keys\<close> on a value that is
  no \<open>dict\<close>. The others are the plain \<open>Exception\<close>s that the fetchers raise
  themselves. A \<open>RequestException\<close> never leaves a fetcher: each one is caught inside
  the retry loop.
\<close>

datatype error =
    ReceivedHtml
  | ContentTooShort nat
  | NotMarkdown nat
  | HeaderNotInt
  | NegativeSleep
  | SleepOverflow
  | AttributeError
  | RateLimitExceeded
  | DiscoverFailedAfterRetries
  | FetchFailedAfterRetries
  | FetchFailed

definition markdown_patterns :: "string list" where
  "markdown_patterns =
     [''# '', ''## '', ''### '', ''```'', ''- '', ''* '', ''1. '', ''['', ''**'', ''_'', ''> '']"

text \<open>
  \<^verbatim>\<open>
  indicator_count = sum(1 for line in content.split('\n')[:50]
                       for p in markdown_patterns if p in line)
  \<close>
\<close>

definition indicator_count :: "string \<Rightarrow> nat" where
  "indicator_count content =
     sum_list (map (\<lambda>line. length (filter (\<lambda>p. contains p line) markdown_patterns))
                   (take 50 (split_lines content)))"

text \<open>
  \<^verbatim>\<open>
  def validate_markdown_content(content, filename):
      if not content or content.startswith('<!DOCTYPE') or '<html' in content[:100]:
          raise ValueError("Received HTML instead of markdown")
      if len(content.strip()) < 50:
          raise ValueError(f"Content too short ({len(content)} bytes)")
      ...
      if indicator_count < 2:
          raise ValueError(f"Content doesn't appear to be markdown (only {indicator_count} indicators)")
  \<close>
  The file name is only used by the caller's log line and is left out.
\<close>

definition validate_markdown_content :: "string \<Rightarrow> error + unit" where
  "validate_markdown_content content =
     (if content = [] \<or> startswith content ''<!DOCTYPE'' \<or> contains ''<html'' (take 100 content)
      then Inl ReceivedHtml
      else if length (strip content) < 50 then Inl (ContentTooShort (length content))
      else if indicator_count content < 2 then Inl (NotMarkdown (indicator_count content))
      else Inr ())"

text \<open>The attribution block that \<open>fetch_changelog\<close> puts before the origin's text.\<close>

definition changelog_header :: string where
  "changelog_header =
     ''# Gemini CLI Changelog\<newline>\<newline>'' @
     ''> **Source**: https://github.com/google-gemini/gemini-cli/blob/main/CHANGELOG.md\<newline>'' @
     ''>\<newline>'' @
     ''> This is the official Gemini CLI changelog, automatically fetched from the repository.\<newline>'' @
     ''\<newline>---\<newline>\<newline>''"

section \<open>The manifest store: \<open>load_manifest\<close>\<close>

text \<open>
  What \<open>json.loads\<close> returns. A JSON object is a Python \<open>dict\<close>, kept as the list of
  its items in insertion order; a number is kept as an integer (a float behaves like an
  integer in \<open>load_manifest\<close>: it supports neither \<open>in\<close> nor item assignment).
\<close>

datatype json =
    JNull
  | JBool bool
  | JNum int
  | JStr string
  | JArr "json list"
  | JObj "(string \<times> json) list"

text \<open>
  \<open>"files" in manifest\<close>: key membership for a \<open>dict\<close>, element membership for a
  \<open>list\<close>, substring test for a \<open>str\<close>; for \<open>None\<close>, a \<open>bool\<close> and a number it
  raises \<open>TypeError\<close> (the value \<open>None\<close> here).
\<close>

fun contains_files :: "json \<Rightarrow> bool option" where
  "contains_files (JObj items) = Some (''files'' \<in> set (map fst items))"
| "contains_files (JArr elems) = Some (JStr ''files'' \<in> set elems)"
| "contains_files (JStr s) = Some (contains ''files'' s)"
| "contains_files JNull = None"
| "contains_files (JBool b) = None"
| "contains_files (JNum n) = None"

text \<open>
  \<open>manifest["files"] = {}\<close>: stores the key in a \<open>dict\<close>; raises \<open>TypeError\<close> for
  every other value (the value \<open>None\<close> here).
\<close>

fun set_files_empty :: "json \<Rightarrow> json option" where
  "set_files_empty (JObj items) = Some (JObj (AList.update ''files'' (JObj []) items))"
| "set_files_empty other = None"

text \<open>
  The manifest file as \<open>load_manifest\<close> meets it: absent, present but raising inside the
  \<open>try\<close> (unreadable, or rejected by \<open>json.loads\<close>), or parsed to a value.
\<close>

datatype manifest_file = NoFile | Unparsable | Parsed json

definition empty_manifest :: json where
  "empty_manifest = JObj [(''files'', JObj []), (''last_updated'', JNull)]"

text \<open>
  \<^verbatim>\<open>
  def load_manifest(docs_dir):
      manifest_path = docs_dir / MANIFEST_FILE
      if manifest_path.exists():
          try:
              manifest = json.loads(manifest_path.read_text())
              if "files" not in manifest:
                  manifest["files"] = {}
              return manifest
          except Exception as e:
              logger.warning(f"Failed to load manifest: {e}")
      return {"files": {}, "last_updated": None}
  \<close>
\<close>

fun load_manifest :: "manifest_file \<Rightarrow> json" where
  "load_manifest NoFile = empty_manifest"
| "load_manifest Unparsable = empty_manifest"
| "load_manifest (Parsed manifest) =
     (case contains_files manifest of
        None \<Rightarrow> empty_manifest
      | Some True \<Rightarrow> manifest
      | Some False \<Rightarrow>
          (case set_files_empty manifest of
             None \<Rightarrow> empty_manifest
           | Some manifest' \<Rightarrow> manifest'))"

text \<open>The value is a mapping that has the key \<open>files\<close>.\<close>

fun has_files_key :: "json \<Rightarrow> bool" where
  "has_files_key (JObj items) = (''files'' \<in> set (map fst items))"
| "has_files_key other = False"

section \<open>The origin and the retrying fetchers\<close>

definition MAX_RETRIES :: nat where
  "MAX_RETRIES = 3"

definition RETRY_DELAY :: nat where
  "RETRY_DELAY = 2"

definition MAX_RETRY_DELAY :: nat where
  "MAX_RETRY_DELAY = 30"

definition GITHUB_API_BASE :: string where
  "GITHUB_API_BASE = ''https://api.github.com/repos/google-gemini/gemini-cli''"

definition GITHUB_RAW_BASE :: string where
  "GITHUB_RAW_BASE = ''https://raw.githubusercontent.com/google-gemini/gemini-cli/main''"

definition MANIFEST_FILE :: string where
  "MANIFEST_FILE = ''docs_manifest.json''"

text \<open>
  A response header that the script passes to \<open>int()\<close>: absent, the empty string, text
  that \<open>int()\<close> rejects (a \<open>Retry-After\<close> header may carry an HTTP date), or the text of
  an integer.
\<close>

datatype header = Absent | EmptyStr | NotInt | IntStr int

text \<open>
  What the script reads of a response: the status code, the two rate-limit headers, the
  body text, and for the tree listing the \<open>(path, type)\<close> pairs of the items under
  \<open>tree\<close> in the decoded body (a missing key reads as the empty string, as
  \<open>item.get(key, '')\<close> does).
\<close>

record response =
  status_code :: nat
  rate_limit_reset :: header
  retry_after :: header
  body :: string
  tree_items :: "(string \<times> string) list"

text \<open>
  \<open>session.get\<close> returns a response or raises a \<open>RequestException\<close> (time-out,
  connection error).
\<close>

datatype reply = Reply response | RequestFailed

text \<open>
  Everything outside the process that a run reads.
  \<^item> \<open>get url k\<close> is the outcome of the \<open>k\<close>-th GET of \<open>url\<close> within the call that
    requests it (each retry loop issues one GET per iteration, so \<open>k\<close> is the loop
    variable \<open>attempt\<close>).
  \<^item> \<open>unix_time k\<close> is \<open>int(time.time())\<close> as read in iteration \<open>k\<close> of the discovery
    loop.
  \<^item> \<open>sha256_hex\<close> stands for \<open>hashlib.sha256(content.encode('utf-8')).hexdigest()\<close>,
    which is not interpreted.
  \<^item> \<open>now_iso\<close> is \<open>datetime.now().isoformat()\<close>, one reading for the run.
  \<^item> \<open>sleep_limit\<close> is the largest number of seconds that \<open>time.sleep\<close> accepts on
    the platform; above it \<open>time.sleep\<close> raises \<open>OverflowError\<close>. The bound is far above
    the waits that the script computes itself, which stay under 300 seconds, so
    \<open>max_sleep\<close> below reads a smaller value of the field as 300.
  \<^item> \<open>json_loads\<close> stands for \<open>json.loads(manifest_path.read_text())\<close>: the parsed
    value, or \<open>None\<close> when reading or parsing raises.
  \<^item> \<open>manifest_text files\<close> is the text that \<open>save_manifest\<close> writes for a new
    manifest with the given \<open>files\<close> mapping. The run statistics and the fields that
    \<open>save_manifest\<close> adds are part of that text; they are not interpreted.
\<close>

record world =
  get :: "string \<Rightarrow> nat \<Rightarrow> reply"
  unix_time :: "nat \<Rightarrow> int"
  sha256_hex :: "string \<Rightarrow> string"
  now_iso :: string
  sleep_limit :: int
  json_loads :: "string \<Rightarrow> json option"
  manifest_text :: "(string \<times> json) list \<Rightarrow> string"

definition max_sleep :: "world \<Rightarrow> int" where
  "max_sleep w = max 300 (sleep_limit w)"

text \<open>
  A call of \<open>time.sleep\<close> in a retry loop: the wait that a rate-limit response asks for, in
  seconds, or the back-off after a failed request. The back-off is recorded as the delay
  \<open>min(RETRY_DELAY * (2 ** attempt), MAX_RETRY_DELAY)\<close>; the random factor between 0.5 and
  1.0 that the script multiplies it with is not modelled.
\<close>

datatype pause = RateLimitWait int | Backoff nat

definition backoff_delay :: "nat \<Rightarrow> nat" where
  "backoff_delay attempt = min (RETRY_DELAY * 2 ^ attempt) MAX_RETRY_DELAY"

text \<open>
  A retry loop gives the sleeps it made, in order, and the value it returned or the
  exception it raised. \<open>pause_then p r\<close> is: sleep, then go on as \<open>r\<close>.
\<close>

definition pause_then :: "pause \<Rightarrow> pause list \<times> 'a \<Rightarrow> pause list \<times> 'a" where
  "pause_then p r = (p # fst r, snd r)"

text \<open>\<open>response.raise_for_status()\<close> raises for the status codes 400 to 599.\<close>

definition raise_for_status :: "response \<Rightarrow> bool" where
  "raise_for_status r = (400 \<le> status_code r \<and> status_code r < 600)"

definition tree_url :: string where
  "tree_url = GITHUB_API_BASE @ ''/git/trees/main?recursive=1''"

definition keep_item :: "string \<times> string \<Rightarrow> bool" where
  "keep_item item =
     (snd item = ''blob'' \<and> startswith (fst item) ''docs/'' \<and> endswith (fst item) ''.md'')"

text \<open>
  The body of \<open>for attempt in range(MAX_RETRIES)\<close> in \<open>discover_docs_from_github\<close>, over
  the attempts still to run. \<open>continue\<close> and the end of the \<open>except\<close> block both go on
  with the next value of \<open>attempt\<close>; when none is left the function returns \<open>[]\<close>.
\<close>

fun discover_attempts :: "world \<Rightarrow> nat list \<Rightarrow> pause list \<times> (error + string list)" where
  "discover_attempts w [] = ([], Inr [])"
| "discover_attempts w (attempt # rest) =
     (case get w tree_url attempt of
        RequestFailed \<Rightarrow>
          (if attempt < MAX_RETRIES - 1
           then pause_then (Backoff (backoff_delay attempt)) (discover_attempts w rest)
           else ([], Inl DiscoverFailedAfterRetries))
      | Reply r \<Rightarrow>
          if status_code r = 403 then
            (case rate_limit_reset r of
               Absent \<Rightarrow> ([], Inl RateLimitExceeded)
             | EmptyStr \<Rightarrow> ([], Inl RateLimitExceeded)
             | NotInt \<Rightarrow> ([], Inl HeaderNotInt)
             | IntStr reset_time \<Rightarrow>
                 (let wait_time = reset_time - unix_time w attempt + 1
                  in if 0 < wait_time \<and> wait_time < 300
                     then pause_then (RateLimitWait wait_time) (discover_attempts w rest)
                     else ([], Inl RateLimitExceeded)))
          else if raise_for_status r then
            (if attempt < MAX_RETRIES - 1
             then pause_then (Backoff (backoff_delay attempt)) (discover_attempts w rest)
             else ([], Inl DiscoverFailedAfterRetries))
          else ([], Inr (sort (map fst (filter keep_item (tree_items r))))))"

text \<open>What \<open>discover_docs_from_github\<close> returns or raises, and the sleeps it makes.\<close>

definition discover_docs_from_github :: "world \<Rightarrow> error + string list" where
  "discover_docs_from_github w = snd (discover_attempts w [0..<MAX_RETRIES])"

definition discover_sleeps :: "world \<Rightarrow> pause list" where
  "discover_sleeps w = fst (discover_attempts w [0..<MAX_RETRIES])"

text \<open>
  \<open>wait_time = int(response.headers.get('Retry-After', 60)); time.sleep(wait_time)\<close>: the
  number of seconds slept, or the exception raised. \<open>int()\<close> raises \<open>ValueError\<close> on
  text that is no integer; \<open>time.sleep\<close> raises \<open>ValueError\<close> on a negative number and
  \<open>OverflowError\<close> on a number above \<open>max_sleep\<close>; the default of 60 seconds is below
  that bound.
\<close>

fun retry_after_sleep :: "world \<Rightarrow> header \<Rightarrow> error + int" where
  "retry_after_sleep w Absent = Inr 60"
| "retry_after_sleep w EmptyStr = Inl HeaderNotInt"
| "retry_after_sleep w NotInt = Inl HeaderNotInt"
| "retry_after_sleep w (IntStr wait_time) =
     (if wait_time < 0 then Inl NegativeSleep
      else if max_sleep w < wait_time then Inl SleepOverflow
      else Inr wait_time)"

text \<open>
  The loop of \<open>fetch_markdown_content\<close>. A \<open>ValueError\<close> (from the validator, from
  \<open>int()\<close> or from \<open>time.sleep\<close>) is logged and raised again, an \<open>OverflowError\<close> is
  caught by nothing; after the loop the function raises
  \<open>Exception(f"Failed to fetch {filename}")\<close>.
\<close>

fun fetch_attempts ::
  "world \<Rightarrow> string \<Rightarrow> string \<Rightarrow> nat list \<Rightarrow> pause list \<times> (error + string \<times> string)" where
  "fetch_attempts w raw_url filename [] = ([], Inl FetchFailed)"
| "fetch_attempts w raw_url filename (attempt # rest) =
     (case get w raw_url attempt of
        RequestFailed \<Rightarrow>
          (if attempt < MAX_RETRIES - 1
           then pause_then (Backoff (backoff_delay attempt)) (fetch_attempts w raw_url filename rest)
           else ([], Inl FetchFailedAfterRetries))
      | Reply r \<Rightarrow>
          if status_code r = 429 then
            (case retry_after_sleep w (retry_after r) of
               Inl e \<Rightarrow> ([], Inl e)
             | Inr wait_time \<Rightarrow>
                 pause_then (RateLimitWait wait_time) (fetch_attempts w raw_url filename rest))
          else if raise_for_status r then
            (if attempt < MAX_RETRIES - 1
             then pause_then (Backoff (backoff_delay attempt))
                    (fetch_attempts w raw_url filename rest)
             else ([], Inl FetchFailedAfterRetries))
          else (case validate_markdown_content (body r) of
                  Inl e \<Rightarrow> ([], Inl e)
                | Inr u \<Rightarrow> ([], Inr (filename, body r))))"

definition raw_url :: "string \<Rightarrow> string" where
  "raw_url file_path = GITHUB_RAW_BASE @ ''/'' @ file_path"

text \<open>What \<open>fetch_markdown_content\<close> returns or raises, and the sleeps it makes.\<close>

definition fetch_markdown_content :: "world \<Rightarrow> string \<Rightarrow> error + string \<times> string" where
  "fetch_markdown_content w file_path =
     snd (fetch_attempts w (raw_url file_path) (path_to_safe_filename file_path)
            [0..<MAX_RETRIES])"

definition fetch_markdown_sleeps :: "world \<Rightarrow> string \<Rightarrow> pause list" where
  "fetch_markdown_sleeps w file_path =
     fst (fetch_attempts w (raw_url file_path) (path_to_safe_filename file_path)
            [0..<MAX_RETRIES])"

definition changelog_url :: string where
  "changelog_url = GITHUB_RAW_BASE @ ''/CHANGELOG.md''"

text \<open>
  The loop of \<open>fetch_changelog\<close>. Only \<open>RequestException\<close> is caught here, so an
  exception from the \<open>Retry-After\<close> header leaves the function; \<open>None\<close> is returned for a
  404, for content found too short, after the last failed attempt and after the loop.
\<close>

fun changelog_attempts ::
  "world \<Rightarrow> nat list \<Rightarrow> pause list \<times> (error + (string \<times> string) option)" where
  "changelog_attempts w [] = ([], Inr None)"
| "changelog_attempts w (attempt # rest) =
     (case get w changelog_url attempt of
        RequestFailed \<Rightarrow>
          (if attempt < MAX_RETRIES - 1
           then pause_then (Backoff (backoff_delay attempt)) (changelog_attempts w rest)
           else ([], Inr None))
      | Reply r \<Rightarrow>
          if status_code r = 404 then ([], Inr None)
          else if status_code r = 429 then
            (case retry_after_sleep w (retry_after r) of
               Inl e \<Rightarrow> ([], Inl e)
             | Inr wait_time \<Rightarrow> pause_then (RateLimitWait wait_time) (changelog_attempts w rest))
          else if raise_for_status r then
            (if attempt < MAX_RETRIES - 1
             then pause_then (Backoff (backoff_delay attempt)) (changelog_attempts w rest)
             else ([], Inr None))
          else (let content = changelog_header @ body r
                in if length (strip content) < 100 then ([], Inr None)
                   else ([], Inr (Some (''changelog.md'', content)))))"

text \<open>What \<open>fetch_changelog\<close> returns or raises.\<close>

definition fetch_changelog :: "world \<Rightarrow> error + (string \<times> string) option" where
  "fetch_changelog w = snd (changelog_attempts w [0..<MAX_RETRIES])"

text \<open>
  Iteration \<open>k\<close> of the discovery loop gets a 403 whose reset header gives a wait that the
  script sleeps through (positive and under 300 seconds); \<open>discovery_wait\<close> is that wait.
\<close>

definition discovery_wait :: "world \<Rightarrow> nat \<Rightarrow> int" where
  "discovery_wait w k =
     (case get w tree_url k of
        RequestFailed \<Rightarrow> 0
      | Reply r \<Rightarrow>
          (case rate_limit_reset r of
             IntStr reset_time \<Rightarrow> reset_time - unix_time w k + 1
           | _ \<Rightarrow> 0))"

definition discovery_rate_limited :: "world \<Rightarrow> nat \<Rightarrow> bool" where
  "discovery_rate_limited w k =
     (case get w tree_url k of
        RequestFailed \<Rightarrow> False
      | Reply r \<Rightarrow>
          status_code r = 403 \<and>
          (case rate_limit_reset r of
             IntStr reset_time \<Rightarrow> 0 < discovery_wait w k \<and> discovery_wait w k < 300
           | _ \<Rightarrow> False))"

text \<open>
  GET number \<open>k\<close> of \<open>url\<close> gets a 429 whose \<open>Retry-After\<close> the script can sleep
  through (absent, or an integer from 0 to \<open>max_sleep\<close>); \<open>fetch_wait\<close> is the number of
  seconds it sleeps.
\<close>

definition fetch_wait :: "world \<Rightarrow> string \<Rightarrow> nat \<Rightarrow> int" where
  "fetch_wait w url k =
     (case get w url k of
        RequestFailed \<Rightarrow> 0
      | Reply r \<Rightarrow> (case retry_after_sleep w (retry_after r) of Inl e \<Rightarrow> 0 | Inr wait_time \<Rightarrow> wait_time))"

definition fetch_rate_limited :: "world \<Rightarrow> string \<Rightarrow> nat \<Rightarrow> bool" where
  "fetch_rate_limited w url k =
     (case get w url k of
        RequestFailed \<Rightarrow> False
      | Reply r \<Rightarrow>
          status_code r = 429 \<and>
          (case retry_after_sleep w (retry_after r) of Inl e \<Rightarrow> False | Inr wait_time \<Rightarrow> True))"

section \<open>The sync orchestrator: \<open>main\<close>\<close>

text \<open>
  The directory \<open>docs_dir\<close> maps a file name to the text of the file. The manifest file
  is one of its files.
\<close>

type_synonym directory = "string \<Rightarrow> string option"

text \<open>
  What \<open>load_manifest\<close> finds at \<open>docs_dir / MANIFEST_FILE\<close>.
\<close>

definition read_manifest_file :: "world \<Rightarrow> directory \<Rightarrow> manifest_file" where
  "read_manifest_file w d =
     (case d MANIFEST_FILE of
        None \<Rightarrow> NoFile
      | Some file_text \<Rightarrow>
          (case json_loads w file_text of
             None \<Rightarrow> Unparsable
           | Some manifest \<Rightarrow> Parsed manifest))"

text \<open>
  \<open>value.get(key, fallback)\<close>: the lookup in a \<open>dict\<close>; \<open>AttributeError\<close> for every
  other value.
\<close>

fun dict_get :: "json \<Rightarrow> string \<Rightarrow> json \<Rightarrow> error + json" where
  "dict_get (JObj items) key fallback =
     Inr (case map_of items key of None \<Rightarrow> fallback | Some v \<Rightarrow> v)"
| "dict_get other key fallback = Inl AttributeError"

text \<open>\<open>value.keys()\<close>\<close>

fun dict_keys :: "json \<Rightarrow> error + string list" where
  "dict_keys (JObj items) = Inr (map fst items)"
| "dict_keys other = Inl AttributeError"

text \<open>\<open>manifest.get("files", {}).get(filename, {})\<close>\<close>

definition old_entry_of :: "json \<Rightarrow> string \<Rightarrow> error + json" where
  "old_entry_of manifest filename =
     (case dict_get manifest ''files'' (JObj []) of
        Inl e \<Rightarrow> Inl e
      | Inr files \<Rightarrow> dict_get files filename (JObj []))"

text \<open>\<open>manifest.get("files", {}).get(filename, {}).get("hash", "")\<close>\<close>

definition old_hash_of :: "json \<Rightarrow> string \<Rightarrow> error + json" where
  "old_hash_of manifest filename =
     (case old_entry_of manifest filename of
        Inl e \<Rightarrow> Inl e
      | Inr entry \<Rightarrow> dict_get entry ''hash'' (JStr []))"

text \<open>
  The variables of \<open>main\<close> that the loop changes, the directory, and the names passed to
  \<open>save_markdown_file\<close> so far, in order. \<open>new_files\<close> is \<open>new_manifest["files"]\<close>, a
  \<open>dict\<close> kept as the list of its items.
\<close>

record run_state =
  disk :: directory
  written :: "string list"
  new_files :: "(string \<times> json) list"
  fetched_files :: "string set"
  successful :: nat
  failed :: nat
  failed_pages :: "string list"

definition initial_state :: "directory \<Rightarrow> run_state" where
  "initial_state d =
     \<lparr>disk = d, written = [], new_files = [], fetched_files = {}, successful = 0, failed = 0,
      failed_pages = []\<rparr>"

text \<open>
  \<^verbatim>\<open>
  def content_has_changed(content, old_hash):
      new_hash = hashlib.sha256(content.encode('utf-8')).hexdigest()
      return new_hash != old_hash
  \<close>
  \<open>old_hash\<close> is whatever the manifest holds under \<open>hash\<close>; only a string can be equal
  to the new hash.
\<close>

definition content_has_changed :: "world \<Rightarrow> string \<Rightarrow> json \<Rightarrow> bool" where
  "content_has_changed w content old_hash = (JStr (sha256_hex w content) \<noteq> old_hash)"

text \<open>
  \<open>save_markdown_file\<close>: writes the file and returns the hash of the content. Writing is
  taken to succeed.
\<close>

definition save_markdown_file :: "world \<Rightarrow> run_state \<Rightarrow> string \<Rightarrow> string \<Rightarrow> run_state \<times> string" where
  "save_markdown_file w s filename content =
     (s\<lparr>disk := (disk s)(filename \<mapsto> content), written := written s @ [filename]\<rparr>,
      sha256_hex w content)"

text \<open>
  The lines that \<open>main\<close> has for a document and again for the changelog:
  \<^verbatim>\<open>
  old_hash = manifest.get("files", {}).get(filename, {}).get("hash", "")
  old_entry = manifest.get("files", {}).get(filename, {})
  if content_has_changed(content, old_hash):
      content_hash = save_markdown_file(docs_dir, filename, content)
      last_updated = datetime.now().isoformat()
  else:
      content_hash = old_hash
      last_updated = old_entry.get("last_updated", datetime.now().isoformat())
  \<close>
  The result is the exception raised, or the state with \<open>content_hash\<close> and
  \<open>last_updated\<close>.
\<close>

definition save_if_changed ::
  "world \<Rightarrow> json \<Rightarrow> run_state \<Rightarrow> string \<Rightarrow> string \<Rightarrow> error + run_state \<times> json \<times> json" where
  "save_if_changed w manifest s filename content =
     (case old_hash_of manifest filename of
        Inl e \<Rightarrow> Inl e
      | Inr old_hash \<Rightarrow>
          (case old_entry_of manifest filename of
             Inl e \<Rightarrow> Inl e
           | Inr old_entry \<Rightarrow>
               if content_has_changed w content old_hash
               then (let (s', content_hash) = save_markdown_file w s filename content
                     in Inr (s', JStr content_hash, JStr (now_iso w)))
               else (case dict_get old_entry ''last_updated'' (JStr (now_iso w)) of
                       Inl e \<Rightarrow> Inl e
                     | Inr last_updated \<Rightarrow> Inr (s, old_hash, last_updated))))"

definition doc_entry :: "string \<Rightarrow> json \<Rightarrow> json \<Rightarrow> json" where
  "doc_entry file_path content_hash last_updated =
     JObj [(''original_path'', JStr file_path),
           (''github_url'',
            JStr (''https://github.com/google-gemini/gemini-cli/blob/main/'' @ file_path)),
           (''hash'', content_hash),
           (''last_updated'', last_updated)]"

definition changelog_entry :: "json \<Rightarrow> json \<Rightarrow> json" where
  "changelog_entry content_hash last_updated =
     JObj [(''original_path'', JStr ''CHANGELOG.md''),
           (''github_url'',
            JStr ''https://github.com/google-gemini/gemini-cli/blob/main/CHANGELOG.md''),
           (''hash'', content_hash),
           (''last_updated'', last_updated),
           (''source'', JStr ''gemini-cli-repository'')]"

text \<open>
  \<open>new_manifest["files"][filename] = entry; fetched_files.add(filename); successful += 1\<close>
\<close>

definition record_success :: "run_state \<Rightarrow> string \<Rightarrow> json \<Rightarrow> run_state" where
  "record_success s filename e =
     s\<lparr>new_files := AList.update filename e (new_files s),
       fetched_files := insert filename (fetched_files s),
       successful := successful s + 1\<rparr>"

text \<open>\<open>failed += 1; failed_pages.append(file_path)\<close>\<close>

definition record_failure :: "run_state \<Rightarrow> string \<Rightarrow> run_state" where
  "record_failure s file_path =
     s\<lparr>failed := failed s + 1, failed_pages := failed_pages s @ [file_path]\<rparr>"

text \<open>
  One iteration of \<open>for i, file_path in enumerate(doc_files, 1)\<close>. Every exception of the
  \<open>try\<close> block is caught, from the fetch and from the look-ups in the manifest alike: the
  path is counted as failed and the loop goes on. The look-ups come before the write, so a
  failed iteration leaves the directory as it was.
\<close>

definition process_doc :: "world \<Rightarrow> json \<Rightarrow> run_state \<Rightarrow> string \<Rightarrow> run_state" where
  "process_doc w manifest s file_path =
     (case fetch_markdown_content w file_path of
        Inl e \<Rightarrow> record_failure s file_path
      | Inr (filename, content) \<Rightarrow>
          (case save_if_changed w manifest s filename content of
             Inl e \<Rightarrow> record_failure s file_path
           | Inr (s', content_hash, last_updated) \<Rightarrow>
               record_success s' filename (doc_entry file_path content_hash last_updated)))"

text \<open>
  The changelog step. It is outside every \<open>try\<close>, so an exception of \<open>fetch_changelog\<close>
  or of a look-up in the manifest ends the run.
\<close>

definition process_changelog :: "world \<Rightarrow> json \<Rightarrow> run_state \<Rightarrow> error + run_state" where
  "process_changelog w manifest s =
     (case fetch_changelog w of
        Inl e \<Rightarrow> Inl e
      | Inr None \<Rightarrow> Inr s
      | Inr (Some (filename, content)) \<Rightarrow>
          (case save_if_changed w manifest s filename content of
             Inl e \<Rightarrow> Inl e
           | Inr (s', content_hash, last_updated) \<Rightarrow>
               Inr (record_success s' filename (changelog_entry content_hash last_updated))))"

text \<open>
  \<^verbatim>\<open>
  def cleanup_old_files(docs_dir, current_files, manifest):
      previous_files = set(manifest.get("files", {}).keys())
      files_to_remove = previous_files - current_files
      for filename in files_to_remove:
          if filename == MANIFEST_FILE:
              continue
          file_path = docs_dir / filename
          if file_path.exists():
              file_path.unlink()
  \<close>
  The loop runs over the previous keys that are not current, here in the order of the
  previous manifest.
\<close>

definition remove_obsolete :: "directory \<Rightarrow> string \<Rightarrow> directory" where
  "remove_obsolete d filename =
     (if filename = MANIFEST_FILE then d
      else if d filename \<noteq> None then d(filename := None)
      else d)"

text \<open>\<open>manifest.get("files", {}).keys()\<close>\<close>

definition previous_files :: "json \<Rightarrow> error + string list" where
  "previous_files manifest =
     (case dict_get manifest ''files'' (JObj []) of
        Inl e \<Rightarrow> Inl e
      | Inr files \<Rightarrow> dict_keys files)"

definition cleanup_old_files :: "directory \<Rightarrow> string set \<Rightarrow> json \<Rightarrow> error + directory" where
  "cleanup_old_files d current_files manifest =
     (case previous_files manifest of
        Inl e \<Rightarrow> Inl e
      | Inr keys \<Rightarrow>
          Inr (foldl remove_obsolete d (filter (\<lambda>filename. filename \<notin> current_files) keys)))"

text \<open>
  \<open>save_manifest\<close>: the new manifest replaces the text of the manifest file.
\<close>

definition save_manifest :: "world \<Rightarrow> directory \<Rightarrow> (string \<times> json) list \<Rightarrow> directory" where
  "save_manifest w d files = d(MANIFEST_FILE \<mapsto> manifest_text w files)"

text \<open>
  What a run leaves behind: the exit code of the process, the directory, the \<open>files\<close>
  mapping of the manifest that was saved (\<open>None\<close> when the run ended before
  \<open>save_manifest\<close>), the set \<open>fetched_files\<close> and the names passed to
  \<open>save_markdown_file\<close>, in order.
\<close>

record run_result =
  exit_code :: nat
  final_disk :: directory
  saved_manifest :: "(string \<times> json) list option"
  fetched :: "string set"
  writes :: "string list"

text \<open>A run that ends early, by \<open>sys.exit(1)\<close> or by an exception that nothing catches.\<close>

definition ended_early :: "run_state \<Rightarrow> run_result" where
  "ended_early s =
     \<lparr>exit_code = 1, final_disk = disk s, saved_manifest = None, fetched = fetched_files s,
      writes = written s\<rparr>"

text \<open>
  \<open>main\<close> on the directory \<open>docs_dir\<close>. \<open>sys.exit(1)\<close> ends the run at once; an
  exception that nothing catches ends it with exit code 1 as well; reaching the end of
  \<open>main\<close> gives exit code 0.
\<close>

definition main :: "world \<Rightarrow> directory \<Rightarrow> run_result" where
  "main w d =
     (let manifest = load_manifest (read_manifest_file w d)
      in case discover_docs_from_github w of
           Inl e \<Rightarrow> ended_early (initial_state d)
         | Inr doc_files \<Rightarrow>
             if doc_files = [] then ended_early (initial_state d)
             else
               (let s = foldl (process_doc w manifest) (initial_state d) doc_files
                in case process_changelog w manifest s of
                     Inl e \<Rightarrow> ended_early s
                   | Inr s' \<Rightarrow>
                       (case cleanup_old_files (disk s') (fetched_files s') manifest of
                          Inl e \<Rightarrow> ended_early s'
                        | Inr d' \<Rightarrow>
                            \<lparr>exit_code =
                               (if failed_pages s' \<noteq> [] \<and> successful s' = 0 then 1 else 0),
                             final_disk = save_manifest w d' (new_files s'),
                             saved_manifest = Some (new_files s'),
                             fetched = fetched_files s',
                             writes = written s'\<rparr>)))"

section \<open>Observations on a run\<close>

text \<open>
  The manifest has the shape that \<open>save_manifest\<close> writes: it is a mapping, its \<open>files\<close>
  is a mapping, and every entry of \<open>files\<close> is a mapping. \<open>files_items\<close> gives the items of
  \<open>files\<close>.
\<close>

fun is_dict :: "json \<Rightarrow> bool" where
  "is_dict (JObj items) = True"
| "is_dict other = False"

definition files_items :: "json \<Rightarrow> (string \<times> json) list option" where
  "files_items manifest =
     (case dict_get manifest ''files'' (JObj []) of
        Inr (JObj files) \<Rightarrow> Some files
      | _ \<Rightarrow> None)"

definition well_formed :: "json \<Rightarrow> bool" where
  "well_formed manifest =
     (case files_items manifest of
        None \<Rightarrow> False
      | Some files \<Rightarrow> list_all (\<lambda>item. is_dict (snd item)) files)"

text \<open>The manifest that a run on the directory starts from.\<close>

definition loaded_manifest :: "world \<Rightarrow> directory \<Rightarrow> json" where
  "loaded_manifest w d = load_manifest (read_manifest_file w d)"

text \<open>The field of an entry, when the entry is a mapping.\<close>

definition entry_field :: "json \<Rightarrow> string \<Rightarrow> json option" where
  "entry_field entry key = (case entry of JObj items \<Rightarrow> map_of items key | _ \<Rightarrow> None)"

text \<open>The document was fetched without an exception.\<close>

definition fetch_ok :: "world \<Rightarrow> string \<Rightarrow> bool" where
  "fetch_ok w file_path =
     (case fetch_markdown_content w file_path of Inl e \<Rightarrow> False | Inr result \<Rightarrow> True)"

text \<open>
  The hash that \<open>main\<close> reads from an old entry (the empty string when the entry has
  none), and the \<open>last_updated\<close> that \<open>main\<close> records for fetched content, given the
  old entry: the clock reading when the content differs from the recorded hash or the old
  entry has no \<open>last_updated\<close>, else the old entry's value.
\<close>

definition entry_hash :: "json \<Rightarrow> json" where
  "entry_hash old_entry =
     (case entry_field old_entry ''hash'' of None \<Rightarrow> JStr [] | Some h \<Rightarrow> h)"

definition last_updated_for :: "world \<Rightarrow> json \<Rightarrow> string \<Rightarrow> json" where
  "last_updated_for w old_entry content =
     (if content_has_changed w content (entry_hash old_entry) then JStr (now_iso w)
      else (case entry_field old_entry ''last_updated'' of
              None \<Rightarrow> JStr (now_iso w)
            | Some t \<Rightarrow> t))"

text \<open>
  What a state holds about one logical name: its entry in the new manifest, whether it is
  in \<open>fetched_files\<close>, whether it has been written in this run, and the file in the directory.
\<close>

definition view :: "string \<Rightarrow> run_state \<Rightarrow> json option \<times> bool \<times> bool \<times> string option" where
  "view n s = (map_of (new_files s) n, n \<in> fetched_files s, n \<in> set (written s), disk s n)"

text \<open>The hash and the \<open>last_updated\<close> that the saved manifest of a run has for a name.\<close>

definition recorded_hash :: "run_result \<Rightarrow> string \<Rightarrow> json option" where
  "recorded_hash r n =
     (case saved_manifest r of
        None \<Rightarrow> None
      | Some m \<Rightarrow> (case map_of m n of None \<Rightarrow> None | Some e \<Rightarrow> entry_field e ''hash''))"

definition recorded_last_updated :: "run_result \<Rightarrow> string \<Rightarrow> json option" where
  "recorded_last_updated r n =
     (case saved_manifest r of
        None \<Rightarrow> None
      | Some m \<Rightarrow> (case map_of m n of None \<Rightarrow> None | Some e \<Rightarrow> entry_field e ''last_updated''))"

section \<open>Sample origins\<close>

definition sample_markdown :: string where
  "sample_markdown =
     ''# Gemini CLI\<newline>\<newline>- install the tool\<newline>- run it from a terminal window\<newline>''"

definition other_markdown :: string where
  "other_markdown =
     ''# Commands\<newline>\<newline>- list the commands\<newline>- each with a short description\<newline>''"

definition status_response :: "nat \<Rightarrow> response" where
  "status_response code =
     \<lparr>status_code = code, rate_limit_reset = Absent, retry_after = Absent,
      body = [], tree_items = []\<rparr>"

definition ok_response :: "string \<Rightarrow> response" where
  "ok_response content = (status_response 200)\<lparr>body := content\<rparr>"

definition tree_response :: "string list \<Rightarrow> response" where
  "tree_response paths = (status_response 200)\<lparr>tree_items := map (\<lambda>path. (path, ''blob'')) paths\<rparr>"

text \<open>
  The text of the manifest file that the sample directories start with, and the text that
  a sample run writes. The texts stand for JSON documents: the sample origins say what
  \<open>json.loads\<close> makes of them.
\<close>

definition previous_manifest_text :: string where
  "previous_manifest_text = ''(text of the previous manifest)''"

definition new_manifest_text :: string where
  "new_manifest_text = ''(text of the new manifest)''"

text \<open>
  The sample origin with the given answers to GET requests, on which the text of the
  previous manifest parses to a manifest with the given \<open>files\<close> mapping. The clock
  stands still, the digest is an injective stand-in, the content itself, so that two
  contents have the same digest only when they are equal, and \<open>time.sleep\<close> accepts up
  to 9223372036 seconds.
\<close>

definition sample_origin :: "(string \<Rightarrow> nat \<Rightarrow> reply) \<Rightarrow> (string \<times> json) list \<Rightarrow> world" where
  "sample_origin answers previous =
     \<lparr>get = answers,
      unix_time = (\<lambda>k. 1000),
      sha256_hex = (\<lambda>content. content),
      now_iso = ''2025-01-02T00:00:00'',
      sleep_limit = 9223372036,
      json_loads = (\<lambda>file_text.
         if file_text = previous_manifest_text
         then Some (JObj [(''files'', JObj previous), (''last_updated'', JStr ''2025-01-01T00:00:00'')])
         else None),
      manifest_text = (\<lambda>files. new_manifest_text)\<rparr>"

text \<open>
  An origin that is rate limiting without end: every tree listing is a 403 that resets
  five seconds later, every other GET a 429 with \<open>Retry-After: 1\<close>.
\<close>

definition rate_limiting_world :: world where
  "rate_limiting_world =
     sample_origin
       (\<lambda>url k.
          if url = tree_url
          then Reply ((status_response 403)\<lparr>rate_limit_reset := IntStr 1005\<rparr>)
          else Reply ((status_response 429)\<lparr>retry_after := IntStr 1\<rparr>))
       []"

text \<open>
  An origin whose first tree listing and whose first answer for a document are rate
  limited, and that serves the listing and \<open>sample_markdown\<close> from the second attempt on.
\<close>

definition recovering_world :: world where
  "recovering_world =
     sample_origin
       (\<lambda>url k.
          if url = tree_url
          then (if k = 0 then Reply ((status_response 403)\<lparr>rate_limit_reset := IntStr 1005\<rparr>)
                else Reply (tree_response [''docs/index.md'']))
          else (if k = 0 then Reply (status_response 429)
                else Reply (ok_response sample_markdown)))
       []"



text \<open>
  An origin that lists the given paths, serves \<open>sample_markdown\<close> for every document and
  answers the changelog request with the given reply, the same at every attempt.
\<close>

definition sample_world :: "string list \<Rightarrow> reply \<Rightarrow> (string \<times> json) list \<Rightarrow> world" where
  "sample_world paths changelog_reply previous =
     sample_origin
       (\<lambda>url k.
          if url = tree_url then Reply (tree_response paths)
          else if url = changelog_url then changelog_reply
          else Reply (ok_response sample_markdown))
       previous"

text \<open>
  An origin that lists the given paths and answers the request for each document as the
  table says, the same at every attempt; a request for a document that is not in the
  table fails at the network level.
\<close>

definition scripted_world ::
  "string list \<Rightarrow> (string \<times> reply) list \<Rightarrow> reply \<Rightarrow> (string \<times> json) list \<Rightarrow> world" where
  "scripted_world paths docs changelog_reply previous =
     sample_origin
       (\<lambda>url k.
          if url = tree_url then Reply (tree_response paths)
          else if url = changelog_url then changelog_reply
          else (case map_of (map (\<lambda>(path, r). (raw_url path, r)) docs) url of
                  None \<Rightarrow> RequestFailed
                | Some r \<Rightarrow> r))
       previous"

text \<open>The entry that an earlier run recorded for a document with the sample content.\<close>

definition sample_entry :: "string \<Rightarrow> json" where
  "sample_entry file_path =
     doc_entry file_path (JStr sample_markdown) (JStr ''2025-01-01T00:00:00'')"

text \<open>
  The same origin at the time of the next run: the text that the run \<open>r\<close> left in the
  manifest file parses to a manifest with the \<open>files\<close> mapping that \<open>r\<close> saved (\<open>main\<close>
  reads no other field of the manifest).
\<close>

definition reloading :: "world \<Rightarrow> run_result \<Rightarrow> world" where
  "reloading w r =
     w\<lparr>now_iso := ''2025-01-03T00:00:00'',
       json_loads := (\<lambda>file_text.
         if Some file_text = final_disk r MANIFEST_FILE
         then (case saved_manifest r of
                 None \<Rightarrow> None
               | Some files \<Rightarrow> Some (JObj [(''files'', JObj files)]))
         else None)\<rparr>"




text \<open>
  An origin with one document whose changelog request is answered by a 429 with an HTTP
  date in \<open>Retry-After\<close>.
\<close>

definition dated_retry_world :: world where
  "dated_retry_world =
     sample_world [''docs/index.md''] (Reply ((status_response 429)\<lparr>retry_after := NotInt\<rparr>)) []"

text \<open>
  The end-to-end scenario: \<open>docs/a.md\<close> is served, every request for \<open>docs/b.md\<close> times
  out, there is no changelog; \<open>b.md\<close> is in the previous manifest and in the directory.
\<close>

definition timeout_world :: world where
  "timeout_world =
     scripted_world [''docs/a.md'', ''docs/b.md'']
       [(''docs/a.md'', Reply (ok_response sample_markdown))] (Reply (status_response 404))
       [(''b.md'', sample_entry ''docs/b.md'')]"

definition timeout_directory :: directory where
  "timeout_directory =
     [''b.md'' \<mapsto> sample_markdown, MANIFEST_FILE \<mapsto> previous_manifest_text]"

definition timeout_run :: run_result where
  "timeout_run = main timeout_world timeout_directory"

text \<open>
  An origin with the document \<open>docs/changelog.md\<close>, every request for which times out,
  and with a changelog; \<open>changelog.md\<close> is in the previous manifest and in the directory.
\<close>

definition changelog_clash_world :: world where
  "changelog_clash_world =
     scripted_world [''docs/changelog.md''] [] (Reply (ok_response ''release notes''))
       [(''changelog.md'', sample_entry ''docs/changelog.md'')]"

definition changelog_clash_directory :: directory where
  "changelog_clash_directory =
     [''changelog.md'' \<mapsto> sample_markdown, MANIFEST_FILE \<mapsto> previous_manifest_text]"

definition changelog_clash_run :: run_result where
  "changelog_clash_run = main changelog_clash_world changelog_clash_directory"

text \<open>
  Two documents whose paths have the same logical name \<open>a__b.md\<close>, with different
  content, and no changelog. The first run starts from an empty directory; the second
  run starts from the directory that the first run left.
\<close>

definition name_clash_world :: world where
  "name_clash_world =
     scripted_world [''docs/a/b.md'', ''docs/a__b.md'']
       [(''docs/a/b.md'', Reply (ok_response sample_markdown)),
        (''docs/a__b.md'', Reply (ok_response other_markdown))]
       (Reply (status_response 404)) []"

definition name_clash_first_run :: run_result where
  "name_clash_first_run = main name_clash_world Map.empty"

definition name_clash_second_run :: run_result where
  "name_clash_second_run =
     main (reloading name_clash_world name_clash_first_run) (final_disk name_clash_first_run)"

text \<open>
  An origin with one document, \<open>docs/a.md\<close>, and a directory that has the document with
  its entry in the manifest; the origin at the time of the next run.
\<close>

definition one_doc_world :: world where
  "one_doc_world =
     sample_world [''docs/a.md''] (Reply (status_response 404))
       [(''a.md'', sample_entry ''docs/a.md'')]"

definition one_doc_directory :: directory where
  "one_doc_directory =
     [''a.md'' \<mapsto> sample_markdown, MANIFEST_FILE \<mapsto> previous_manifest_text]"

definition one_doc_first_run :: run_result where
  "one_doc_first_run = main one_doc_world one_doc_directory"

definition one_doc_world_later :: world where
  "one_doc_world_later = reloading one_doc_world one_doc_first_run"

section \<open>Properties of the logical-name derivation\<close>

lemma startswith_docs: "startswith s ''docs/'' = (take 5 s = ''docs/'')"
  by (simp add: startswith_def eval_nat_numeral)

lemma endswith_md: "endswith s ''.md'' = (3 \<le> length s \<and> drop (length s - 3) s = ''.md'')"
  by (simp add: endswith_def eval_nat_numeral)

lemma replace_sep_no_sep: "CHR ''/'' \<notin> set (replace_sep s)"
  by (induction s) auto

lemma replace_sep_id: "CHR ''/'' \<notin> set s \<Longrightarrow> replace_sep s = s"
  by (induction s) auto

lemma strip_md_suffix_append: "strip_md_suffix (s @ ''.md'') = s"
  by (simp add: strip_md_suffix_def endswith_def)

lemma strip_docs_prefix_no_sep: "CHR ''/'' \<notin> set s \<Longrightarrow> strip_docs_prefix s = s"
proof -
  assume a: "CHR ''/'' \<notin> set s"
  have "\<not> startswith s ''docs/''"
  proof
    assume "startswith s ''docs/''"
    then have "take 5 s = ''docs/''" by (simp add: startswith_docs)
    then have "CHR ''/'' \<in> set (take 5 s)" by simp
    then have "CHR ''/'' \<in> set s" by (rule in_set_takeD)
    with a show False by simp
  qed
  then show ?thesis by (simp add: strip_docs_prefix_def)
qed

lemma path_to_safe_filename_idem:
  "path_to_safe_filename (path_to_safe_filename p) = path_to_safe_filename p"
proof -
  define r where "r = replace_sep (strip_md_suffix (strip_docs_prefix p))"
  have r: "CHR ''/'' \<notin> set r" unfolding r_def by (rule replace_sep_no_sep)
  then have "CHR ''/'' \<notin> set (r @ ''.md'')" by simp
  then have "strip_docs_prefix (r @ ''.md'') = r @ ''.md''"
    by (rule strip_docs_prefix_no_sep)
  then have "path_to_safe_filename (r @ ''.md'') = r @ ''.md''"
    using r by (simp add: path_to_safe_filename_def strip_md_suffix_append replace_sep_id)
  then show ?thesis by (simp add: path_to_safe_filename_def r_def)
qed

lemma doc_path_split:
  assumes "is_doc_path p"
  shows "p = ''docs/'' @ stem p @ ''.md''"
proof -
  from assms have pre: "take 5 p = ''docs/''" and suf: "endswith p ''.md''"
    by (simp_all add: is_doc_path_def startswith_docs)
  define r where "r = drop 5 p"
  have p: "p = ''docs/'' @ r"
    using pre append_take_drop_id [of 5 p] by (simp add: r_def)
  have sr: "endswith r ''.md''"
  proof (cases r)
    case Nil
    with p suf show ?thesis by (simp add: endswith_def)
  next
    case (Cons a r1)
    show ?thesis
    proof (cases r1)
      case Nil
      with Cons p suf show ?thesis by (simp add: endswith_def)
    next
      case (Cons b r2)
      note c2 = this
      show ?thesis
      proof (cases r2)
        case Nil
        with c2 \<open>r = a # r1\<close> p suf show ?thesis by (simp add: endswith_def)
      next
        case (Cons c r3)
        with c2 \<open>r = a # r1\<close> p suf show ?thesis
          by (simp add: endswith_def Suc_diff_le)
      qed
    qed
  qed
  have st: "stem p = take (length r - 3) r"
    using pre sr by (simp add: stem_def strip_docs_prefix_def startswith_docs
        strip_md_suffix_def r_def)
  from sr have "drop (length r - 3) r = ''.md''" by (simp add: endswith_md)
  then have "r = take (length r - 3) r @ ''.md''"
    using append_take_drop_id [of "length r - 3" r] by simp
  with p st show ?thesis by simp
qed

lemma replace_sep_hd:
  "replace_sep s = CHR ''_'' # t \<Longrightarrow> (\<exists>s'. s = CHR ''_'' # s' \<or> s = CHR ''/'' # s')"
  by (cases s) (auto split: if_splits)

lemma restore_replace_sep:
  "underscores_isolated s \<Longrightarrow> restore_sep (replace_sep s) = s"
proof (induction s rule: underscores_isolated.induct)
  case 1
  then show ?case by simp
next
  case (2 c)
  then show ?case by simp
next
  case (3 c d cs)
  then have ih: "restore_sep (replace_sep (d # cs)) = d # cs" by simp
  show ?case
  proof (cases "c = CHR ''/''")
    case True
    then show ?thesis using ih by simp
  next
    case False
    note nsep = this
    show ?thesis
    proof (cases "c = CHR ''_''")
      case True
      with 3 have d: "d \<noteq> CHR ''_''" "d \<noteq> CHR ''/''" by auto
      then obtain t where t: "replace_sep (d # cs) = d # t" by simp
      from True d t ih show ?thesis by simp
    next
      case False
      obtain e t where t: "replace_sep (d # cs) = e # t" by (cases "d = CHR ''/''") auto
      from False nsep t ih show ?thesis by simp
    qed
  qed
qed

lemma restore_origin_path_inverse:
  assumes "is_doc_path p" and "underscores_isolated (stem p)"
  shows "restore_origin_path (path_to_safe_filename p) = p"
proof -
  have "path_to_safe_filename p = replace_sep (stem p) @ ''.md''"
    by (simp add: path_to_safe_filename_def stem_def)
  then have "restore_origin_path (path_to_safe_filename p) = ''docs/'' @ stem p @ ''.md''"
    using assms(2) by (simp add: restore_origin_path_def strip_md_suffix_append
        restore_replace_sep)
  with doc_path_split [OF assms(1)] show ?thesis by simp
qed

text \<open>
  Claim C7. The derivation sends \<open>docs/cli/commands.md\<close> to \<open>cli__commands.md\<close> and
  \<open>docs/index.md\<close> to \<open>index.md\<close>. Applied to one of its own outputs it returns that
  output again: an output contains no separator, so neither the prefix test nor the
  replacement changes it, and the suffix that is stripped is appended again.
\<close>

theorem path_to_safe_filename_examples_idempotent:
  "path_to_safe_filename ''docs/cli/commands.md'' = ''cli__commands.md''
   \<and> path_to_safe_filename ''docs/index.md'' = ''index.md''
   \<and> path_to_safe_filename (path_to_safe_filename p) = path_to_safe_filename p"
proof -
  have "path_to_safe_filename ''docs/cli/commands.md'' = ''cli__commands.md''"
    by (simp add: path_to_safe_filename_def strip_docs_prefix_def strip_md_suffix_def
        startswith_def endswith_def)
  moreover have "path_to_safe_filename ''docs/index.md'' = ''index.md''"
    by (simp add: path_to_safe_filename_def strip_docs_prefix_def strip_md_suffix_def
        startswith_def endswith_def)
  ultimately show ?thesis by (simp add: path_to_safe_filename_idem)
qed

text \<open>
  The derivation applied to the output \<open>cli__commands.md\<close> reproduces that output.
\<close>

theorem path_to_safe_filename_output_reproduced:
  "path_to_safe_filename (path_to_safe_filename ''docs/cli/commands.md'')
     = path_to_safe_filename ''docs/cli/commands.md''"
  by (simp add: path_to_safe_filename_def strip_docs_prefix_def strip_md_suffix_def
      startswith_def endswith_def)

text \<open>
  Claim C6. On documentation paths (under \<open>docs/\<close>, ending in \<open>.md\<close>) in whose stem no
  underscore is directly followed by an underscore or a separator, the origin path is
  recovered from the logical name by \<open>restore_origin_path\<close>, and two such paths with the
  same logical name are equal.
\<close>

theorem path_to_safe_filename_injective_reversible:
  assumes "is_doc_path p" and "underscores_isolated (stem p)"
    and "is_doc_path q" and "underscores_isolated (stem q)"
  shows "restore_origin_path (path_to_safe_filename p) = p
         \<and> (path_to_safe_filename p = path_to_safe_filename q \<longrightarrow> p = q)"
proof -
  have rp: "restore_origin_path (path_to_safe_filename p) = p"
    using assms(1,2) by (rule restore_origin_path_inverse)
  have rq: "restore_origin_path (path_to_safe_filename q) = q"
    using assms(3,4) by (rule restore_origin_path_inverse)
  from rp rq show ?thesis by metis
qed

theorem path_to_safe_filename_injective_reversible_witness:
  "is_doc_path ''docs/cli/get_started.md''
   \<and> underscores_isolated (stem ''docs/cli/get_started.md'')
   \<and> is_doc_path ''docs/index.md''
   \<and> underscores_isolated (stem ''docs/index.md'')
   \<and> restore_origin_path (path_to_safe_filename ''docs/cli/get_started.md'')
       = ''docs/cli/get_started.md''
   \<and> path_to_safe_filename ''docs/cli/get_started.md'' \<noteq> path_to_safe_filename ''docs/index.md''"
proof -
  have a: "is_doc_path ''docs/cli/get_started.md''"
    by (simp add: is_doc_path_def startswith_def endswith_def)
  have b: "underscores_isolated (stem ''docs/cli/get_started.md'')"
    by (simp add: stem_def strip_docs_prefix_def strip_md_suffix_def
        startswith_def endswith_def)
  have c: "is_doc_path ''docs/index.md''"
    by (simp add: is_doc_path_def startswith_def endswith_def)
  have d: "underscores_isolated (stem ''docs/index.md'')"
    by (simp add: stem_def strip_docs_prefix_def strip_md_suffix_def
        startswith_def endswith_def)
  have e: "''docs/cli/get_started.md'' \<noteq> ''docs/index.md''" by simp
  from a b c d e path_to_safe_filename_injective_reversible [OF a b c d]
  show ?thesis by blast
qed

text \<open>
  Two distinct documentation paths with the same logical name: a separator and a double
  underscore are both written as a double underscore.
\<close>

theorem path_to_safe_filename_collision:
  "is_doc_path ''docs/a/b.md'' \<and> is_doc_path ''docs/a__b.md''
   \<and> ''docs/a/b.md'' \<noteq> ''docs/a__b.md''
   \<and> path_to_safe_filename ''docs/a/b.md'' = path_to_safe_filename ''docs/a__b.md''"
  by (simp add: path_to_safe_filename_def strip_docs_prefix_def strip_md_suffix_def
      is_doc_path_def startswith_def endswith_def)

section \<open>Properties of the content validator\<close>

lemma filter_two_distinct:
  assumes "p \<in> set xs" and "q \<in> set xs" and "p \<noteq> q" and "P p" and "P q"
  shows "2 \<le> length (filter P xs)"
proof -
  have "{p, q} \<subseteq> set (filter P xs)" using assms by simp
  then have "card {p, q} \<le> card (set (filter P xs))"
    by (intro card_mono) simp_all
  also have "\<dots> \<le> length (filter P xs)" by (rule card_length)
  finally show ?thesis using assms(3) by simp
qed

lemma sum_list_two_members:
  fixes f :: "'a \<Rightarrow> nat"
  assumes "a \<in> set xs" and "b \<in> set xs" and "a \<noteq> b"
  shows "f a + f b \<le> sum_list (map f xs)"
  using assms
proof (induction xs)
  case Nil
  then show ?case by simp
next
  case (Cons x xs)
  have mem: "\<And>y. y \<in> set xs \<Longrightarrow> f y \<le> sum_list (map f xs)"
    by (simp add: member_le_sum_list)
  from Cons.prems consider "x = a" "b \<in> set xs" | "x = b" "a \<in> set xs"
    | "a \<in> set xs" "b \<in> set xs" by auto
  then show ?case
  proof cases
    case 1
    then show ?thesis using mem [of b] by simp
  next
    case 2
    then show ?thesis using mem [of a] by simp
  next
    case 3
    then show ?thesis using Cons.IH Cons.prems(3) by simp
  qed
qed

lemma two_markers_counted:
  assumes p: "p \<in> set markdown_patterns" and q: "q \<in> set markdown_patterns" and pq: "p \<noteq> q"
    and l1: "l1 \<in> set (take 50 (split_lines content))" and c1: "contains p l1"
    and l2: "l2 \<in> set (take 50 (split_lines content))" and c2: "contains q l2"
  shows "2 \<le> indicator_count content"
proof -
  define f where "f = (\<lambda>line. length (filter (\<lambda>p. contains p line) markdown_patterns))"
  have ic: "indicator_count content = sum_list (map f (take 50 (split_lines content)))"
    by (simp add: indicator_count_def f_def)
  have "p \<in> set (filter (\<lambda>p. contains p l1) markdown_patterns)" using p c1 by simp
  then have f1: "1 \<le> f l1"
    unfolding f_def by (simp only: Suc_le_eq One_nat_def length_pos_if_in_set)
  have "q \<in> set (filter (\<lambda>p. contains p l2) markdown_patterns)" using q c2 by simp
  then have f2: "1 \<le> f l2"
    unfolding f_def by (simp only: Suc_le_eq One_nat_def length_pos_if_in_set)
  show ?thesis
  proof (cases "l1 = l2")
    case True
    with p q pq c1 c2 have "2 \<le> f l1"
      unfolding f_def by (intro filter_two_distinct [of p _ q]) simp_all
    moreover have "f l1 \<le> sum_list (map f (take 50 (split_lines content)))"
      using l1 by (simp add: member_le_sum_list)
    ultimately show ?thesis using ic by simp
  next
    case False
    with l1 l2 have "f l1 + f l2 \<le> sum_list (map f (take 50 (split_lines content)))"
      by (rule sum_list_two_members)
    with f1 f2 ic show ?thesis by simp
  qed
qed

lemma validate_ok_iff:
  "(validate_markdown_content content = Inr ()) =
     (content \<noteq> [] \<and> \<not> startswith content ''<!DOCTYPE''
      \<and> \<not> contains ''<html'' (take 100 content)
      \<and> 50 \<le> length (strip content) \<and> 2 \<le> indicator_count content)"
  by (auto simp add: validate_markdown_content_def)

text \<open>
  Claim C5. The validator accepts a string exactly when it is not empty, does not begin
  with a DOCTYPE declaration, has no \<open><html\<close> inside its first 100 characters, has
  stripped content of at least 50 characters and an indicator count of at least 2 over
  its first 50 lines; every other string raises. Two distinct markers occurring in the
  first 50 lines make the indicator count at least 2, so a string that passes the first
  four tests and has two distinct markers in its first 50 lines is accepted.
\<close>

theorem validate_markdown_content_characterised:
  "(validate_markdown_content content = Inr ()) =
     (content \<noteq> [] \<and> \<not> startswith content ''<!DOCTYPE''
      \<and> \<not> contains ''<html'' (take 100 content)
      \<and> 50 \<le> length (strip content) \<and> 2 \<le> indicator_count content)
   \<and> (p \<in> set markdown_patterns \<and> q \<in> set markdown_patterns \<and> p \<noteq> q
        \<and> l1 \<in> set (take 50 (split_lines content)) \<and> contains p l1
        \<and> l2 \<in> set (take 50 (split_lines content)) \<and> contains q l2
       \<longrightarrow> 2 \<le> indicator_count content)"
  using two_markers_counted [of p q l1 content l2] by (simp add: validate_ok_iff)

theorem validate_markdown_content_characterised_witness:
  "''# '' \<in> set markdown_patterns \<and> ''- '' \<in> set markdown_patterns \<and> ''# '' \<noteq> ''- ''
   \<and> ''# Gemini CLI'' \<in> set (take 50 (split_lines
         ''# Gemini CLI\<newline>\<newline>- install the tool\<newline>- run it from a terminal window\<newline>''))
   \<and> contains ''# '' ''# Gemini CLI''
   \<and> ''- install the tool'' \<in> set (take 50 (split_lines
         ''# Gemini CLI\<newline>\<newline>- install the tool\<newline>- run it from a terminal window\<newline>''))
   \<and> contains ''- '' ''- install the tool''
   \<and> 2 \<le> indicator_count
         ''# Gemini CLI\<newline>\<newline>- install the tool\<newline>- run it from a terminal window\<newline>''
   \<and> validate_markdown_content
         ''# Gemini CLI\<newline>\<newline>- install the tool\<newline>- run it from a terminal window\<newline>''
       = Inr ()"
proof -
  define c where
    "c = ''# Gemini CLI\<newline>\<newline>- install the tool\<newline>- run it from a terminal window\<newline>''"
  have p: "''# '' \<in> set markdown_patterns" by (simp add: markdown_patterns_def)
  have q: "''- '' \<in> set markdown_patterns" by (simp add: markdown_patterns_def)
  have pq: "''# '' \<noteq> ''- ''" by simp
  have l1: "''# Gemini CLI'' \<in> set (take 50 (split_lines c))" unfolding c_def by code_simp
  have c1: "contains ''# '' ''# Gemini CLI''" by code_simp
  have l2: "''- install the tool'' \<in> set (take 50 (split_lines c))" unfolding c_def by code_simp
  have c2: "contains ''- '' ''- install the tool''" by code_simp
  have pre: "c \<noteq> [] \<and> \<not> startswith c ''<!DOCTYPE'' \<and> \<not> contains ''<html'' (take 100 c)
             \<and> 50 \<le> length (strip c)"
    unfolding c_def by code_simp
  from p q pq l1 c1 l2 c2 pre
    validate_markdown_content_characterised
      [of c "''# ''" "''- ''" "''# Gemini CLI''" "''- install the tool''"]
  have "2 \<le> indicator_count c \<and> validate_markdown_content c = Inr ()" by blast
  with p q pq l1 c1 l2 c2 show ?thesis unfolding c_def by blast
qed

text \<open>
  A string of 57 bytes with the two distinct markers \<open># \<close> and \<open>- \<close> in its first two
  lines is rejected: stripped of its trailing spaces it has 7 characters.
\<close>

theorem validate_rejects_padded_markdown:
  "50 \<le> length ''# a\<newline>- b                                                  ''
   \<and> ''# '' \<in> set markdown_patterns \<and> ''- '' \<in> set markdown_patterns \<and> ''# '' \<noteq> ''- ''
   \<and> contains ''# '' (split_lines ''# a\<newline>- b                                                  '' ! 0)
   \<and> contains ''- '' (split_lines ''# a\<newline>- b                                                  '' ! 1)
   \<and> validate_markdown_content ''# a\<newline>- b                                                  ''
       = Inl (ContentTooShort 57)"
  by code_simp

section \<open>Properties of the retrying fetchers\<close>

lemma attempts_list: "[0..<MAX_RETRIES] = [0, 1, 2]"
  by (simp add: MAX_RETRIES_def upt_rec)

lemma discover_rate_limited_step:
  assumes "discovery_rate_limited w k"
  shows "discover_attempts w (k # rest)
         = pause_then (RateLimitWait (discovery_wait w k)) (discover_attempts w rest)"
proof (cases "get w tree_url k")
  case RequestFailed
  with assms show ?thesis by (simp add: discovery_rate_limited_def)
next
  case (Reply r)
  with assms obtain t where t: "status_code r = 403" "rate_limit_reset r = IntStr t"
    by (auto simp add: discovery_rate_limited_def split: header.splits)
  from Reply t have wt: "discovery_wait w k = t - unix_time w k + 1"
    by (simp add: discovery_wait_def)
  from assms Reply t have "0 < discovery_wait w k \<and> discovery_wait w k < 300"
    by (simp add: discovery_rate_limited_def)
  with Reply t wt show ?thesis by (simp add: Let_def)
qed

lemma fetch_rate_limited_step:
  assumes "fetch_rate_limited w url k"
  shows "fetch_attempts w url filename (k # rest)
         = pause_then (RateLimitWait (fetch_wait w url k)) (fetch_attempts w url filename rest)"
proof (cases "get w url k")
  case RequestFailed
  with assms show ?thesis by (simp add: fetch_rate_limited_def)
next
  case (Reply r)
  with assms obtain t where t: "status_code r = 429" "retry_after_sleep w (retry_after r) = Inr t"
    by (auto simp add: fetch_rate_limited_def split: sum.splits)
  from Reply t have "fetch_wait w url k = t" by (simp add: fetch_wait_def)
  with Reply t show ?thesis by simp
qed

lemma discover_all_rate_limited:
  "(\<And>k. k \<in> set ks \<Longrightarrow> discovery_rate_limited w k) \<Longrightarrow>
   discover_attempts w ks = (map (\<lambda>k. RateLimitWait (discovery_wait w k)) ks, Inr [])"
proof (induction ks)
  case Nil
  then show ?case by simp
next
  case (Cons k ks)
  have "discover_attempts w (k # ks)
      = pause_then (RateLimitWait (discovery_wait w k)) (discover_attempts w ks)"
    by (rule discover_rate_limited_step) (simp add: Cons.prems)
  moreover have "discover_attempts w ks
      = (map (\<lambda>k. RateLimitWait (discovery_wait w k)) ks, Inr [])"
    by (rule Cons.IH) (simp add: Cons.prems)
  ultimately show ?case by (simp add: pause_then_def)
qed

lemma fetch_all_rate_limited:
  "(\<And>k. k \<in> set ks \<Longrightarrow> fetch_rate_limited w url k) \<Longrightarrow>
   fetch_attempts w url filename ks
     = (map (\<lambda>k. RateLimitWait (fetch_wait w url k)) ks, Inl FetchFailed)"
proof (induction ks)
  case Nil
  then show ?case by simp
next
  case (Cons k ks)
  have "fetch_attempts w url filename (k # ks)
      = pause_then (RateLimitWait (fetch_wait w url k)) (fetch_attempts w url filename ks)"
    by (rule fetch_rate_limited_step) (simp add: Cons.prems)
  moreover have "fetch_attempts w url filename ks
      = (map (\<lambda>k. RateLimitWait (fetch_wait w url k)) ks, Inl FetchFailed)"
    by (rule Cons.IH) (simp add: Cons.prems)
  ultimately show ?case by (simp add: pause_then_def)
qed

text \<open>
  Claim C2. A rate-limit response that the script can sleep through (during discovery a
  403 with a reset wait that is positive and under 300 seconds; during a per-file fetch a
  429 whose \<open>Retry-After\<close> is absent or an integer that \<open>time.sleep\<close> accepts) makes the
  loop sleep for the time asked, with no back-off, and then go on exactly as it does on the
  remaining iterations: the retry takes the next of the three iterations. When all three
  iterations are rate limited, the discovery call has slept three times and returns the
  empty list, and the per-file fetch has slept three times and raises its final
  \<open>Failed to fetch\<close> exception.
\<close>

theorem rate_limit_retries_use_up_attempts:
  "(discovery_rate_limited w k \<longrightarrow>
      discover_attempts w (k # rest)
        = pause_then (RateLimitWait (discovery_wait w k)) (discover_attempts w rest))
   \<and> (fetch_rate_limited w url k \<longrightarrow>
      fetch_attempts w url filename (k # rest)
        = pause_then (RateLimitWait (fetch_wait w url k)) (fetch_attempts w url filename rest))
   \<and> ((\<forall>i < MAX_RETRIES. discovery_rate_limited w i) \<longrightarrow>
      discover_docs_from_github w = Inr []
      \<and> discover_sleeps w = map (\<lambda>i. RateLimitWait (discovery_wait w i)) [0..<MAX_RETRIES])
   \<and> ((\<forall>i < MAX_RETRIES. fetch_rate_limited w (raw_url file_path) i) \<longrightarrow>
      fetch_markdown_content w file_path = Inl FetchFailed
      \<and> fetch_markdown_sleeps w file_path
          = map (\<lambda>i. RateLimitWait (fetch_wait w (raw_url file_path) i)) [0..<MAX_RETRIES])"
proof (intro conjI impI)
  assume "discovery_rate_limited w k"
  then show "discover_attempts w (k # rest)
      = pause_then (RateLimitWait (discovery_wait w k)) (discover_attempts w rest)"
    by (rule discover_rate_limited_step)
next
  assume "fetch_rate_limited w url k"
  then show "fetch_attempts w url filename (k # rest)
      = pause_then (RateLimitWait (fetch_wait w url k)) (fetch_attempts w url filename rest)"
    by (rule fetch_rate_limited_step)
next
  assume a: "\<forall>i < MAX_RETRIES. discovery_rate_limited w i"
  have d: "discover_attempts w [0..<MAX_RETRIES]
      = (map (\<lambda>i. RateLimitWait (discovery_wait w i)) [0..<MAX_RETRIES], Inr [])"
    using a by (intro discover_all_rate_limited) simp
  show "discover_docs_from_github w = Inr []"
    unfolding discover_docs_from_github_def d by simp
  show "discover_sleeps w = map (\<lambda>i. RateLimitWait (discovery_wait w i)) [0..<MAX_RETRIES]"
    unfolding discover_sleeps_def d by simp
next
  assume a: "\<forall>i < MAX_RETRIES. fetch_rate_limited w (raw_url file_path) i"
  have f: "fetch_attempts w (raw_url file_path) (path_to_safe_filename file_path) [0..<MAX_RETRIES]
      = (map (\<lambda>i. RateLimitWait (fetch_wait w (raw_url file_path) i)) [0..<MAX_RETRIES],
         Inl FetchFailed)"
    using a by (intro fetch_all_rate_limited) simp
  show "fetch_markdown_content w file_path = Inl FetchFailed"
    unfolding fetch_markdown_content_def f by simp
  show "fetch_markdown_sleeps w file_path
      = map (\<lambda>i. RateLimitWait (fetch_wait w (raw_url file_path) i)) [0..<MAX_RETRIES]"
    unfolding fetch_markdown_sleeps_def f by simp
qed

lemma rate_limiting_world_discovery: "discovery_rate_limited rate_limiting_world k"
  by (simp add: discovery_rate_limited_def discovery_wait_def rate_limiting_world_def
      sample_origin_def status_response_def)

lemma raw_url_not_tree_url: "raw_url file_path \<noteq> tree_url"
proof
  assume "raw_url file_path = tree_url"
  then have "take 9 (raw_url file_path) = take 9 tree_url" by simp
  then show False
    by (simp add: raw_url_def GITHUB_RAW_BASE_def tree_url_def GITHUB_API_BASE_def)
qed

lemma rate_limiting_world_fetch:
  "fetch_rate_limited rate_limiting_world (raw_url file_path) k"
  using raw_url_not_tree_url [of file_path]
  by (simp add: fetch_rate_limited_def rate_limiting_world_def sample_origin_def
      status_response_def max_sleep_def)

theorem rate_limit_retries_use_up_attempts_witness:
  "discovery_rate_limited recovering_world 0
   \<and> discover_attempts recovering_world [0, 1, 2] = ([RateLimitWait 6], Inr [''docs/index.md''])
   \<and> fetch_rate_limited recovering_world (raw_url ''docs/index.md'') 0
   \<and> fetch_attempts recovering_world (raw_url ''docs/index.md'') ''index.md'' [0, 1, 2]
       = ([RateLimitWait 60], Inr (''index.md'', sample_markdown))
   \<and> discovery_rate_limited rate_limiting_world 0
   \<and> discovery_rate_limited rate_limiting_world 1
   \<and> discovery_rate_limited rate_limiting_world 2
   \<and> discover_docs_from_github rate_limiting_world = Inr []
   \<and> discover_sleeps rate_limiting_world = [RateLimitWait 6, RateLimitWait 6, RateLimitWait 6]
   \<and> fetch_rate_limited rate_limiting_world (raw_url ''docs/index.md'') 0
   \<and> fetch_rate_limited rate_limiting_world (raw_url ''docs/index.md'') 1
   \<and> fetch_rate_limited rate_limiting_world (raw_url ''docs/index.md'') 2
   \<and> fetch_markdown_content rate_limiting_world ''docs/index.md'' = Inl FetchFailed
   \<and> fetch_markdown_sleeps rate_limiting_world ''docs/index.md''
       = [RateLimitWait 1, RateLimitWait 1, RateLimitWait 1]"
proof -
  have d0: "discovery_rate_limited recovering_world 0" by code_simp
  have f0: "fetch_rate_limited recovering_world (raw_url ''docs/index.md'') 0" by code_simp
  have dr: "pause_then (RateLimitWait (discovery_wait recovering_world 0))
              (discover_attempts recovering_world [1, 2])
            = ([RateLimitWait 6], Inr [''docs/index.md''])"
    by code_simp
  have fr: "pause_then (RateLimitWait (fetch_wait recovering_world (raw_url ''docs/index.md'') 0))
              (fetch_attempts recovering_world (raw_url ''docs/index.md'') ''index.md'' [1, 2])
            = ([RateLimitWait 60], Inr (''index.md'', sample_markdown))"
    by code_simp
  note r = rate_limit_retries_use_up_attempts
    [of recovering_world 0 "[1, 2]" "raw_url ''docs/index.md''" "''index.md''" "''docs/index.md''"]
  from r d0 dr have a: "discover_attempts recovering_world [0, 1, 2]
      = ([RateLimitWait 6], Inr [''docs/index.md''])"
    by simp
  from r f0 fr have b: "fetch_attempts recovering_world (raw_url ''docs/index.md'') ''index.md''
      [0, 1, 2] = ([RateLimitWait 60], Inr (''index.md'', sample_markdown))"
    by simp
  have d: "\<forall>i < MAX_RETRIES. discovery_rate_limited rate_limiting_world i"
    by (simp add: rate_limiting_world_discovery)
  have f: "\<forall>i < MAX_RETRIES. fetch_rate_limited rate_limiting_world (raw_url ''docs/index.md'') i"
    by (intro allI impI) (rule rate_limiting_world_fetch)
  have dw: "map (\<lambda>i. RateLimitWait (discovery_wait rate_limiting_world i)) [0..<MAX_RETRIES]
      = [RateLimitWait 6, RateLimitWait 6, RateLimitWait 6]"
    by code_simp
  have fw: "map (\<lambda>i. RateLimitWait (fetch_wait rate_limiting_world (raw_url ''docs/index.md'') i))
        [0..<MAX_RETRIES]
      = [RateLimitWait 1, RateLimitWait 1, RateLimitWait 1]"
    by code_simp
  note e = rate_limit_retries_use_up_attempts
    [of rate_limiting_world 0 "[]" "raw_url ''docs/index.md''" "''index.md''" "''docs/index.md''"]
  from e d f have c: "discover_docs_from_github rate_limiting_world = Inr []
      \<and> discover_sleeps rate_limiting_world
          = map (\<lambda>i. RateLimitWait (discovery_wait rate_limiting_world i)) [0..<MAX_RETRIES]
      \<and> fetch_markdown_content rate_limiting_world ''docs/index.md'' = Inl FetchFailed
      \<and> fetch_markdown_sleeps rate_limiting_world ''docs/index.md''
          = map (\<lambda>i. RateLimitWait (fetch_wait rate_limiting_world (raw_url ''docs/index.md'') i))
              [0..<MAX_RETRIES]"
    by blast
  from c dw fw have c': "discover_docs_from_github rate_limiting_world = Inr []
      \<and> discover_sleeps rate_limiting_world = [RateLimitWait 6, RateLimitWait 6, RateLimitWait 6]
      \<and> fetch_markdown_content rate_limiting_world ''docs/index.md'' = Inl FetchFailed
      \<and> fetch_markdown_sleeps rate_limiting_world ''docs/index.md''
          = [RateLimitWait 1, RateLimitWait 1, RateLimitWait 1]"
    by (simp only:)
  from d0 a f0 b c' rate_limiting_world_discovery rate_limiting_world_fetch
  show ?thesis by blast
qed

text \<open>
  Three consecutive 429 responses end a per-file fetch: the loop has no iteration left.
\<close>

theorem fetch_ends_after_three_rate_limits:
  "fetch_rate_limited rate_limiting_world (raw_url ''docs/index.md'') 0
   \<and> fetch_rate_limited rate_limiting_world (raw_url ''docs/index.md'') 1
   \<and> fetch_rate_limited rate_limiting_world (raw_url ''docs/index.md'') 2
   \<and> fetch_markdown_content rate_limiting_world ''docs/index.md'' = Inl FetchFailed"
  by code_simp







section \<open>Properties of the manifest store\<close>

lemma load_manifest_absent_or_unparsable:
  "load_manifest NoFile = empty_manifest \<and> load_manifest Unparsable = empty_manifest"
  by simp

lemma has_files_key_empty_manifest: "has_files_key empty_manifest"
  by (simp add: empty_manifest_def)

lemma load_manifest_object: "has_files_key (load_manifest (Parsed (JObj items)))"
  by (cases "''files'' \<in> fst ` set items") (simp_all add: dom_update)

text \<open>
  Claim C8. The manifest file \<open>["files"]\<close> is valid JSON. \<open>json.loads\<close> gives the list
  \<open>['files']\<close>, the test \<open>"files" not in manifest\<close> is false for it, and
  \<open>load_manifest\<close> returns the list: a value that is no mapping and has no \<open>files\<close> key.
\<close>

theorem load_manifest_returns_parsed_list:
  "load_manifest (Parsed (JArr [JStr ''files''])) = JArr [JStr ''files'']
   \<and> \<not> has_files_key (load_manifest (Parsed (JArr [JStr ''files''])))"
  by simp

section \<open>Properties of reconciliation\<close>

lemma foldl_remove_obsolete:
  "foldl remove_obsolete d fs f = (if f \<in> set fs \<and> f \<noteq> MANIFEST_FILE then None else d f)"
proof (induction fs arbitrary: d)
  case Nil
  then show ?case by simp
next
  case (Cons x fs)
  show ?case
    by (simp add: Cons.IH) (simp add: remove_obsolete_def)
qed

lemma cleanup_old_files_apply:
  assumes "previous_files manifest = Inr keys"
  shows "\<exists>d'. cleanup_old_files d current manifest = Inr d'
           \<and> (\<forall>f. d' f = (if f \<in> set keys \<and> f \<notin> current \<and> f \<noteq> MANIFEST_FILE
                           then None else d f))"
  using assms by (simp add: cleanup_old_files_def foldl_remove_obsolete)



section \<open>Manifests of the shape that the script writes\<close>

lemma well_formed_files:
  assumes "well_formed manifest"
  shows "\<exists>files. dict_get manifest ''files'' (JObj []) = Inr (JObj files)
           \<and> files_items manifest = Some files
           \<and> list_all (\<lambda>item. is_dict (snd item)) files"
proof (cases "files_items manifest")
  case None
  with assms show ?thesis by (simp add: well_formed_def)
next
  case (Some files)
  with assms have l: "list_all (\<lambda>item. is_dict (snd item)) files"
    by (simp add: well_formed_def)
  from Some have "dict_get manifest ''files'' (JObj []) = Inr (JObj files)"
    by (simp add: files_items_def split: sum.splits json.splits)
  with Some l show ?thesis by simp
qed

lemma is_dict_obj: "is_dict v \<Longrightarrow> \<exists>e. v = JObj e"
  by (cases v) simp_all

lemma well_formed_entry:
  assumes "well_formed manifest"
  shows "\<exists>e. old_entry_of manifest n = Inr (JObj e)"
proof -
  from well_formed_files [OF assms] obtain files where
    f: "dict_get manifest ''files'' (JObj []) = Inr (JObj files)"
    and l: "list_all (\<lambda>item. is_dict (snd item)) files"
    by blast
  show ?thesis
  proof (cases "map_of files n")
    case None
    with f show ?thesis by (simp add: old_entry_of_def)
  next
    case (Some v)
    then have "(n, v) \<in> set files" by (rule map_of_SomeD)
    with l have "is_dict v" by (auto simp add: list_all_iff)
    then obtain e where "v = JObj e" using is_dict_obj by blast
    with f Some show ?thesis by (simp add: old_entry_of_def)
  qed
qed

lemma well_formed_entry_found:
  assumes "files_items manifest = Some files" and "map_of files n = Some v"
  shows "old_entry_of manifest n = Inr v"
proof -
  from assms(1) have "dict_get manifest ''files'' (JObj []) = Inr (JObj files)"
    by (simp add: files_items_def split: sum.splits json.splits)
  with assms(2) show ?thesis by (simp add: old_entry_of_def)
qed

lemma well_formed_previous:
  assumes "well_formed manifest"
  shows "\<exists>files. files_items manifest = Some files
           \<and> previous_files manifest = Inr (map fst files)"
proof -
  from well_formed_files [OF assms] obtain files where
    "dict_get manifest ''files'' (JObj []) = Inr (JObj files)"
    "files_items manifest = Some files"
    by blast
  then show ?thesis by (simp add: previous_files_def)
qed

section \<open>What a run does to one logical name\<close>

lemma fetch_attempts_filename:
  "snd (fetch_attempts w url filename ks) = Inr (fn, c) \<Longrightarrow> fn = filename"
  by (induction ks)
    (auto simp add: pause_then_def split: reply.splits option.splits if_splits sum.splits)

lemma fetch_filename:
  "fetch_markdown_content w p = Inr (fn, c) \<Longrightarrow> fn = path_to_safe_filename p"
  unfolding fetch_markdown_content_def by (rule fetch_attempts_filename)

lemma changelog_attempts_filename:
  "snd (changelog_attempts w ks) = Inr (Some (fn, c)) \<Longrightarrow> fn = ''changelog.md''"
  by (induction ks)
    (auto simp add: Let_def pause_then_def split: reply.splits option.splits if_splits sum.splits)

lemma fetch_changelog_filename:
  "fetch_changelog w = Inr (Some (fn, c)) \<Longrightarrow> fn = ''changelog.md''"
  unfolding fetch_changelog_def by (rule changelog_attempts_filename)

lemma safe_filename_not_manifest: "path_to_safe_filename p \<noteq> MANIFEST_FILE"
proof
  assume "path_to_safe_filename p = MANIFEST_FILE"
  then have "last (path_to_safe_filename p) = last MANIFEST_FILE" by simp
  then show False by (simp add: path_to_safe_filename_def MANIFEST_FILE_def)
qed

lemma save_if_changed_entry:
  assumes "old_entry_of manifest fn = Inr (JObj e)"
  shows "save_if_changed w manifest s fn c =
     Inr ((if content_has_changed w c (entry_hash (JObj e))
           then s\<lparr>disk := (disk s)(fn \<mapsto> c), written := written s @ [fn]\<rparr> else s),
          JStr (sha256_hex w c), last_updated_for w (JObj e) c)"
proof -
  have h: "old_hash_of manifest fn = Inr (entry_hash (JObj e))"
    using assms by (simp add: old_hash_of_def entry_hash_def entry_field_def)
  show ?thesis
  proof (cases "content_has_changed w c (entry_hash (JObj e))")
    case True
    then show ?thesis
      by (simp add: save_if_changed_def h assms save_markdown_file_def last_updated_for_def)
  next
    case False
    then have "entry_hash (JObj e) = JStr (sha256_hex w c)"
      by (simp add: content_has_changed_def)
    with False show ?thesis
      by (simp add: save_if_changed_def h assms last_updated_for_def entry_field_def)
  qed
qed

lemma save_if_changed_state:
  assumes "save_if_changed w manifest s fn c = Inr (s', h, t)"
  shows "s' = s \<or> s' = s\<lparr>disk := (disk s)(fn \<mapsto> c), written := written s @ [fn]\<rparr>"
  using assms
  by (auto simp add: save_if_changed_def save_markdown_file_def split: sum.splits if_splits)

lemma process_doc_ok:
  assumes "fetch_markdown_content w p = Inr (fn, c)"
    and "old_entry_of manifest fn = Inr (JObj e)"
  shows "process_doc w manifest s p =
     record_success
       (if content_has_changed w c (entry_hash (JObj e))
        then s\<lparr>disk := (disk s)(fn \<mapsto> c), written := written s @ [fn]\<rparr> else s)
       fn (doc_entry p (JStr (sha256_hex w c)) (last_updated_for w (JObj e) c))"
  using assms(1) by (simp add: process_doc_def save_if_changed_entry [OF assms(2)])

lemma process_doc_fail:
  assumes "\<not> fetch_ok w p"
  shows "process_doc w manifest s p = record_failure s p"
  using assms by (simp add: process_doc_def fetch_ok_def split: sum.splits)

lemma view_record_failure: "view n (record_failure s p) = view n s"
  by (simp add: view_def record_failure_def)

lemma view_record_success_other:
  "fn \<noteq> n \<Longrightarrow> view n (record_success s fn e) = view n s"
  by (simp add: view_def record_success_def update_conv')

lemma view_write_other:
  "fn \<noteq> n \<Longrightarrow>
   view n (s\<lparr>disk := (disk s)(fn \<mapsto> c), written := written s @ [fn]\<rparr>) = view n s"
  by (simp add: view_def)

lemma process_doc_view_other:
  assumes "path_to_safe_filename p = n \<longrightarrow> \<not> fetch_ok w p"
  shows "view n (process_doc w manifest s p) = view n s"
proof (cases "fetch_markdown_content w p")
  case (Inl e)
  then have "\<not> fetch_ok w p" by (simp add: fetch_ok_def)
  then show ?thesis by (simp add: process_doc_fail view_record_failure)
next
  case (Inr res)
  obtain fn c where res: "res = (fn, c)" by (cases res)
  with Inr have f: "fetch_markdown_content w p = Inr (fn, c)" by simp
  then have "fetch_ok w p" by (simp add: fetch_ok_def)
  with assms fetch_filename [OF f] have ne: "fn \<noteq> n" by auto
  show ?thesis
  proof (cases "save_if_changed w manifest s fn c")
    case (Inl e)
    with f show ?thesis by (simp add: process_doc_def view_record_failure)
  next
    case (Inr r)
    obtain s' h t where r: "r = (s', h, t)" by (cases r)
    with Inr have sv: "save_if_changed w manifest s fn c = Inr (s', h, t)" by simp
    from save_if_changed_state [OF sv] ne have "view n s' = view n s"
      by (auto simp add: view_write_other)
    moreover have "process_doc w manifest s p = record_success s' fn (doc_entry p h t)"
      using f sv by (simp add: process_doc_def)
    ultimately show ?thesis by (simp add: view_record_success_other [OF ne])
  qed
qed

lemma docs_loop_view_other:
  "(\<And>q. q \<in> set fs \<Longrightarrow> path_to_safe_filename q = n \<longrightarrow> \<not> fetch_ok w q) \<Longrightarrow>
   view n (foldl (process_doc w manifest) s fs) = view n s"
proof (induction fs arbitrary: s)
  case Nil
  then show ?case by simp
next
  case (Cons q fs)
  have "view n (process_doc w manifest s q) = view n s"
    by (rule process_doc_view_other) (simp add: Cons.prems)
  moreover have "view n (foldl (process_doc w manifest) (process_doc w manifest s q) fs)
      = view n (process_doc w manifest s q)"
    by (rule Cons.IH) (simp add: Cons.prems)
  ultimately show ?case by simp
qed

lemma process_changelog_view_other:
  assumes wf: "well_formed manifest"
    and cl: "fetch_changelog w = Inr cl" "n = ''changelog.md'' \<longrightarrow> cl = None"
  shows "\<exists>s'. process_changelog w manifest s = Inr s' \<and> view n s' = view n s"
proof (cases cl)
  case None
  with cl show ?thesis by (simp add: process_changelog_def)
next
  case (Some res)
  obtain fn c where res: "res = (fn, c)" by (cases res)
  with Some cl have f: "fetch_changelog w = Inr (Some (fn, c))" by simp
  from cl(2) Some fetch_changelog_filename [OF f] have ne: "fn \<noteq> n" by auto
  from well_formed_entry [OF wf] obtain e where e: "old_entry_of manifest fn = Inr (JObj e)"
    by blast
  define s1 where "s1 = (if content_has_changed w c (entry_hash (JObj e))
         then s\<lparr>disk := (disk s)(fn \<mapsto> c), written := written s @ [fn]\<rparr> else s)"
  have v1: "view n s1 = view n s" unfolding s1_def using ne by (simp add: view_write_other)
  have "process_changelog w manifest s =
      Inr (record_success s1 fn
        (changelog_entry (JStr (sha256_hex w c)) (last_updated_for w (JObj e) c)))"
    using f by (simp add: process_changelog_def save_if_changed_entry [OF e] s1_def)
  moreover have "view n (record_success s1 fn
        (changelog_entry (JStr (sha256_hex w c)) (last_updated_for w (JObj e) c))) = view n s"
    unfolding view_record_success_other [OF ne] by (rule v1)
  ultimately show ?thesis by simp
qed

text \<open>
  A run that discovers the paths \<open>fs\<close>, whose changelog step raises nothing and whose
  previous keys can be read: its result in terms of the state after the two fetch phases.
\<close>

lemma main_result:
  assumes "discover_docs_from_github w = Inr fs" and "fs \<noteq> []"
    and "process_changelog w (loaded_manifest w d)
           (foldl (process_doc w (loaded_manifest w d)) (initial_state d) fs) = Inr s'"
    and "previous_files (loaded_manifest w d) = Inr keys"
  shows "exit_code (main w d) = (if failed_pages s' \<noteq> [] \<and> successful s' = 0 then 1 else 0)"
    and "fetched (main w d) = fetched_files s'"
    and "saved_manifest (main w d) = Some (new_files s')"
    and "writes (main w d) = written s'"
    and "final_disk (main w d) f =
           (if f = MANIFEST_FILE then Some (manifest_text w (new_files s'))
            else if f \<in> set keys \<and> f \<notin> fetched_files s' then None
            else disk s' f)"
proof -
  from cleanup_old_files_apply [OF assms(4), of "disk s'" "fetched_files s'"]
  obtain d' where d': "cleanup_old_files (disk s') (fetched_files s') (loaded_manifest w d) = Inr d'"
    "\<And>f. d' f = (if f \<in> set keys \<and> f \<notin> fetched_files s' \<and> f \<noteq> MANIFEST_FILE
                   then None else disk s' f)"
    by blast
  have m: "main w d =
      \<lparr>exit_code = (if failed_pages s' \<noteq> [] \<and> successful s' = 0 then 1 else 0),
       final_disk = save_manifest w d' (new_files s'),
       saved_manifest = Some (new_files s'),
       fetched = fetched_files s',
       writes = written s'\<rparr>"
    using assms(1,2,3) d'(1) by (simp add: main_def loaded_manifest_def Let_def)
  show "exit_code (main w d) = (if failed_pages s' \<noteq> [] \<and> successful s' = 0 then 1 else 0)"
    by (simp add: m)
  show "fetched (main w d) = fetched_files s'" by (simp add: m)
  show "saved_manifest (main w d) = Some (new_files s')" by (simp add: m)
  show "writes (main w d) = written s'" by (simp add: m)
  show "final_disk (main w d) f =
           (if f = MANIFEST_FILE then Some (manifest_text w (new_files s'))
            else if f \<in> set keys \<and> f \<notin> fetched_files s' then None
            else disk s' f)"
    by (simp add: m save_manifest_def d'(2))
qed

section \<open>Exit codes\<close>

lemma process_doc_counts:
  assumes "well_formed manifest"
  shows "successful (process_doc w manifest s p) = successful s + (if fetch_ok w p then 1 else 0)
   \<and> failed_pages (process_doc w manifest s p)
       = failed_pages s @ (if fetch_ok w p then [] else [p])"
proof (cases "fetch_markdown_content w p")
  case (Inl e)
  then have "\<not> fetch_ok w p" by (simp add: fetch_ok_def)
  then show ?thesis by (simp add: process_doc_fail record_failure_def)
next
  case (Inr res)
  obtain fn c where "res = (fn, c)" by (cases res)
  with Inr have f: "fetch_markdown_content w p = Inr (fn, c)" by simp
  then have ok: "fetch_ok w p" by (simp add: fetch_ok_def)
  from well_formed_entry [OF assms] obtain e where e: "old_entry_of manifest fn = Inr (JObj e)"
    by blast
  show ?thesis
    unfolding process_doc_ok [OF f e] using ok by (simp add: record_success_def)
qed

lemma docs_loop_counts:
  assumes "well_formed manifest"
  shows "successful (foldl (process_doc w manifest) s fs)
       = successful s + length (filter (fetch_ok w) fs)
   \<and> failed_pages (foldl (process_doc w manifest) s fs)
       = failed_pages s @ filter (\<lambda>p. \<not> fetch_ok w p) fs"
proof (induction fs arbitrary: s)
  case Nil
  then show ?case by simp
next
  case (Cons p fs)
  show ?case using process_doc_counts [OF assms, of w s p] by (simp add: Cons.IH)
qed

lemma process_changelog_counts:
  assumes wf: "well_formed manifest" and cl: "fetch_changelog w = Inr cl"
  shows "\<exists>s'. process_changelog w manifest s = Inr s'
           \<and> failed_pages s' = failed_pages s
           \<and> successful s' = successful s + (if cl = None then 0 else 1)"
proof (cases cl)
  case None
  with cl show ?thesis by (simp add: process_changelog_def)
next
  case (Some res)
  obtain fn c where "res = (fn, c)" by (cases res)
  with Some cl have f: "fetch_changelog w = Inr (Some (fn, c))" by simp
  from well_formed_entry [OF wf] obtain e where e: "old_entry_of manifest fn = Inr (JObj e)"
    by blast
  show ?thesis
    using f Some
    by (simp add: process_changelog_def save_if_changed_entry [OF e] record_success_def)
qed

lemma process_changelog_raises:
  "fetch_changelog w = Inl e \<Longrightarrow> process_changelog w manifest s = Inl e"
  by (simp add: process_changelog_def)

text \<open>
  For a previous manifest of the shape that the script writes, the exit code is 0 exactly
  when discovery returns at least one path, the changelog fetch raises nothing, and a
  document or the changelog was fetched.
\<close>

lemma main_exit_code_zero_iff:
  assumes wf: "well_formed (loaded_manifest w d)"
  shows "(exit_code (main w d) = 0) =
     (\<exists>fs cl. discover_docs_from_github w = Inr fs \<and> fs \<noteq> [] \<and> fetch_changelog w = Inr cl
        \<and> ((\<exists>p \<in> set fs. fetch_ok w p) \<or> cl \<noteq> None))"
proof (cases "discover_docs_from_github w")
  case (Inl e)
  then show ?thesis by (simp add: main_def ended_early_def)
next
  case (Inr fs)
  note disc = this
  show ?thesis
  proof (cases "fs = []")
    case True
    with disc show ?thesis by (simp add: main_def ended_early_def)
  next
    case False
    define s where "s = foldl (process_doc w (loaded_manifest w d)) (initial_state d) fs"
    have cnt: "successful s = length (filter (fetch_ok w) fs)"
      "failed_pages s = filter (\<lambda>p. \<not> fetch_ok w p) fs"
      using docs_loop_counts [OF wf, of w "initial_state d" fs]
      by (simp_all add: s_def initial_state_def)
    show ?thesis
    proof (cases "fetch_changelog w")
      case (Inl e)
      from process_changelog_raises [OF Inl, of "loaded_manifest w d" s]
      have "exit_code (main w d) = 1"
        using disc False by (simp add: main_def loaded_manifest_def s_def Let_def ended_early_def)
      with Inl show ?thesis by simp
    next
      case (Inr cl)
      from process_changelog_counts [OF wf Inr, of s] obtain s' where
        pc: "process_changelog w (loaded_manifest w d) s = Inr s'"
        and fp0: "failed_pages s' = failed_pages s"
        and su0: "successful s' = successful s + (if cl = None then 0 else 1)"
        by blast
      from well_formed_previous [OF wf] obtain files where
        fi: "files_items (loaded_manifest w d) = Some files"
        and pk: "previous_files (loaded_manifest w d) = Inr (map fst files)"
        by blast
      have ex: "exit_code (main w d)
          = (if failed_pages s' \<noteq> [] \<and> successful s' = 0 then 1 else 0)"
        by (rule main_result(1) [OF disc False pc [unfolded s_def] pk])
      have fp: "failed_pages s' = filter (\<lambda>p. \<not> fetch_ok w p) fs"
        using fp0 cnt by simp
      have su: "successful s' = length (filter (fetch_ok w) fs) + (if cl = None then 0 else 1)"
        using su0 cnt by simp
      have zero: "(successful s' = 0) = ((\<forall>p \<in> set fs. \<not> fetch_ok w p) \<and> cl = None)"
        using su by (auto simp add: filter_empty_conv)
      have nonempty: "(\<forall>p \<in> set fs. \<not> fetch_ok w p) \<Longrightarrow> failed_pages s' \<noteq> []"
        using fp False by (simp add: filter_empty_conv)
      show ?thesis
        using ex zero nonempty Inr disc False by auto
    qed
  qed
qed

text \<open>
  Claim C4. Discovery succeeds and the one document is fetched, but the changelog request
  is answered by a 429 whose \<open>Retry-After\<close> is a date: \<open>int()\<close> raises inside
  \<open>fetch_changelog\<close>, nothing catches it, and the run ends with exit code 1 before the
  manifest is saved.
\<close>

theorem changelog_exception_exit_code:
  "discover_docs_from_github dated_retry_world = Inr [''docs/index.md'']
   \<and> fetch_markdown_content dated_retry_world ''docs/index.md'' = Inr (''index.md'', sample_markdown)
   \<and> fetch_changelog dated_retry_world = Inl HeaderNotInt
   \<and> exit_code (main dated_retry_world Map.empty) = 1
   \<and> saved_manifest (main dated_retry_world Map.empty) = None
   \<and> writes (main dated_retry_world Map.empty) = [''index.md'']"
  by code_simp

section \<open>Failed fetches and reconciliation\<close>

lemma view_initial_state: "view n (initial_state d) = (None, False, False, d n)"
  by (simp add: view_def initial_state_def)

text \<open>
  Claim C9. Let the previous manifest have the shape that the script writes, and let a
  discovered path with logical name \<open>n\<close> fail to be fetched, with \<open>n\<close> a key of the
  previous manifest. If every discovered path with that logical name fails, the
  changelog fetch raises nothing and the changelog is not stored under \<open>n\<close>, then \<open>n\<close> is
  not in the set of fetched names, the saved manifest has no entry for \<open>n\<close>, and after
  reconciliation the directory has no file \<open>n\<close>.
\<close>

theorem failed_fetch_removes_local_copy:
  assumes wf: "well_formed (loaded_manifest w d)"
    and keys: "previous_files (loaded_manifest w d) = Inr keys"
    and disc: "discover_docs_from_github w = Inr fs"
    and p: "p \<in> set fs" "path_to_safe_filename p = n"
    and fails: "\<forall>q \<in> set fs. path_to_safe_filename q = n \<longrightarrow> \<not> fetch_ok w q"
    and cl: "fetch_changelog w = Inr cl" "n = ''changelog.md'' \<longrightarrow> cl = None"
    and prev: "n \<in> set keys"
  shows "n \<notin> fetched (main w d)
         \<and> (\<exists>m. saved_manifest (main w d) = Some m \<and> map_of m n = None)
         \<and> final_disk (main w d) n = None"
proof -
  define s where "s = foldl (process_doc w (loaded_manifest w d)) (initial_state d) fs"
  from p(1) have ne: "fs \<noteq> []" by auto
  have "view n s = view n (initial_state d)"
    unfolding s_def using fails by (intro docs_loop_view_other) simp
  then have vs: "view n s = (None, False, False, d n)" by (simp add: view_initial_state)
  obtain s' where s': "process_changelog w (loaded_manifest w d) s = Inr s'"
    and v: "view n s' = view n s"
    using process_changelog_view_other [OF wf cl] by blast
  from v vs have nf: "map_of (new_files s') n = None" "n \<notin> fetched_files s'"
    by (simp_all add: view_def)
  note r = main_result [OF disc ne s' [unfolded s_def] keys]
  have nm: "n \<noteq> MANIFEST_FILE" using p(2) safe_filename_not_manifest [of p] by simp
  have "final_disk (main w d) n = None"
    unfolding r(5) using nm prev nf(2) by simp
  with r(2,3) nf show ?thesis by simp
qed

theorem failed_fetch_removes_local_copy_witness:
  "well_formed (loaded_manifest timeout_world timeout_directory)
   \<and> previous_files (loaded_manifest timeout_world timeout_directory) = Inr [''b.md'']
   \<and> discover_docs_from_github timeout_world = Inr [''docs/a.md'', ''docs/b.md'']
   \<and> path_to_safe_filename ''docs/b.md'' = ''b.md''
   \<and> fetch_markdown_content timeout_world ''docs/b.md'' = Inl FetchFailedAfterRetries
   \<and> fetch_changelog timeout_world = Inr None
   \<and> timeout_directory ''b.md'' = Some sample_markdown
   \<and> ''b.md'' \<notin> fetched timeout_run
   \<and> final_disk timeout_run ''b.md'' = None"
proof -
  have wf: "well_formed (loaded_manifest timeout_world timeout_directory)" by code_simp
  have keys: "previous_files (loaded_manifest timeout_world timeout_directory) = Inr [''b.md'']"
    by code_simp
  have disc: "discover_docs_from_github timeout_world = Inr [''docs/a.md'', ''docs/b.md'']"
    by code_simp
  have p: "''docs/b.md'' \<in> set [''docs/a.md'', ''docs/b.md'']" by simp
  have n: "path_to_safe_filename ''docs/b.md'' = ''b.md''" by code_simp
  have f: "fetch_markdown_content timeout_world ''docs/b.md'' = Inl FetchFailedAfterRetries"
    by code_simp
  have fails: "\<forall>q \<in> set [''docs/a.md'', ''docs/b.md''].
      path_to_safe_filename q = ''b.md'' \<longrightarrow> \<not> fetch_ok timeout_world q"
    by code_simp
  have cl: "fetch_changelog timeout_world = Inr None" by code_simp
  have c2: "''b.md'' = ''changelog.md'' \<longrightarrow> (None :: (string \<times> string) option) = None" by simp
  have prev: "''b.md'' \<in> set [''b.md'']" by simp
  have d0: "timeout_directory ''b.md'' = Some sample_markdown" by code_simp
  note t = failed_fetch_removes_local_copy [OF wf keys disc p n fails cl c2 prev]
  have a: "''b.md'' \<notin> fetched timeout_run"
    unfolding timeout_run_def by (rule t [THEN conjunct1])
  have b: "final_disk timeout_run ''b.md'' = None"
    unfolding timeout_run_def by (rule t [THEN conjunct2, THEN conjunct2])
  show ?thesis by (intro conjI; fact)
qed

text \<open>
  The fetch of \<open>docs/changelog.md\<close> fails, yet its logical name \<open>changelog.md\<close> is in the
  set of fetched names and in the saved manifest, and the local file is not deleted: the
  changelog of the repository is stored under the same name.
\<close>

theorem failed_fetch_name_kept_by_changelog:
  "discover_docs_from_github changelog_clash_world = Inr [''docs/changelog.md'']
   \<and> path_to_safe_filename ''docs/changelog.md'' = ''changelog.md''
   \<and> fetch_markdown_content changelog_clash_world ''docs/changelog.md''
       = Inl FetchFailedAfterRetries
   \<and> previous_files (loaded_manifest changelog_clash_world changelog_clash_directory)
       = Inr [''changelog.md'']
   \<and> ''changelog.md'' \<in> fetched changelog_clash_run
   \<and> map_option (map fst) (saved_manifest changelog_clash_run) = Some [''changelog.md'']
   \<and> final_disk changelog_clash_run ''changelog.md''
       = Some (changelog_header @ ''release notes'')"
  by code_simp

section \<open>Unchanged content\<close>

lemma process_doc_view_ok:
  assumes "fetch_markdown_content w p = Inr (n, c)"
    and "old_entry_of manifest n = Inr (JObj e)"
  shows "view n (process_doc w manifest s p) =
     (Some (doc_entry p (JStr (sha256_hex w c)) (last_updated_for w (JObj e) c)), True,
      n \<in> set (written s) \<or> content_has_changed w c (entry_hash (JObj e)),
      if content_has_changed w c (entry_hash (JObj e)) then Some c else disk s n)"
  unfolding process_doc_ok [OF assms]
  by (simp add: view_def record_success_def update_conv')

lemma docs_loop_view_unique:
  assumes fetch: "fetch_markdown_content w p = Inr (n, c)"
    and entry: "old_entry_of manifest n = Inr (JObj e)"
  shows "p \<in> set fs \<Longrightarrow> (\<And>q. q \<in> set fs \<Longrightarrow> path_to_safe_filename q = n \<Longrightarrow> q = p) \<Longrightarrow>
     view n (foldl (process_doc w manifest) s fs) =
       (Some (doc_entry p (JStr (sha256_hex w c)) (last_updated_for w (JObj e) c)), True,
        n \<in> set (written s) \<or> content_has_changed w c (entry_hash (JObj e)),
        if content_has_changed w c (entry_hash (JObj e)) then Some c else disk s n)"
proof (induction fs arbitrary: s)
  case Nil
  then show ?case by simp
next
  case (Cons q fs)
  define s1 where "s1 = process_doc w manifest s q"
  have uniq: "\<And>r. r \<in> set fs \<Longrightarrow> path_to_safe_filename r = n \<Longrightarrow> r = p"
    using Cons.prems(2) by simp
  show ?case
  proof (cases "q = p")
    case True
    have v1: "view n s1 =
       (Some (doc_entry p (JStr (sha256_hex w c)) (last_updated_for w (JObj e) c)), True,
        n \<in> set (written s) \<or> content_has_changed w c (entry_hash (JObj e)),
        if content_has_changed w c (entry_hash (JObj e)) then Some c else disk s n)"
      unfolding s1_def True by (rule process_doc_view_ok [OF fetch entry])
    show ?thesis
    proof (cases "p \<in> set fs")
      case True
      from Cons.IH [OF True uniq, of s1] v1 show ?thesis
        by (auto simp add: s1_def view_def)
    next
      case False
      have "view n (foldl (process_doc w manifest) s1 fs) = view n s1"
        using uniq False by (intro docs_loop_view_other) auto
      with v1 show ?thesis by (simp add: s1_def)
    qed
  next
    case False
    with Cons.prems have pin: "p \<in> set fs" and qn: "path_to_safe_filename q \<noteq> n" by auto
    from qn have "view n s1 = view n s"
      unfolding s1_def by (intro process_doc_view_other) simp
    with Cons.IH [OF pin uniq, of s1] show ?thesis
      by (auto simp add: s1_def view_def)
  qed
qed

lemma main_view_unique:
  assumes wf: "well_formed (loaded_manifest w d)"
    and entry: "old_entry_of (loaded_manifest w d) n = Inr (JObj e)"
    and disc: "discover_docs_from_github w = Inr fs"
    and p: "p \<in> set fs"
    and fetch: "fetch_markdown_content w p = Inr (n, c)"
    and unique: "\<forall>q \<in> set fs. path_to_safe_filename q = n \<longrightarrow> q = p"
    and cl: "fetch_changelog w = Inr cl" "n = ''changelog.md'' \<longrightarrow> cl = None"
  shows "\<exists>m. saved_manifest (main w d) = Some m
           \<and> map_of m n
               = Some (doc_entry p (JStr (sha256_hex w c)) (last_updated_for w (JObj e) c))"
    and "(n \<in> set (writes (main w d))) = content_has_changed w c (entry_hash (JObj e))"
    and "final_disk (main w d) n
           = (if content_has_changed w c (entry_hash (JObj e)) then Some c else d n)"
proof -
  define s where "s = foldl (process_doc w (loaded_manifest w d)) (initial_state d) fs"
  from p have ne: "fs \<noteq> []" by auto
  have vs: "view n s =
       (Some (doc_entry p (JStr (sha256_hex w c)) (last_updated_for w (JObj e) c)), True,
        n \<in> set (written (initial_state d)) \<or> content_has_changed w c (entry_hash (JObj e)),
        if content_has_changed w c (entry_hash (JObj e)) then Some c
        else disk (initial_state d) n)"
    unfolding s_def using unique by (intro docs_loop_view_unique [OF fetch entry p]) simp
  obtain s' where s': "process_changelog w (loaded_manifest w d) s = Inr s'"
    and v: "view n s' = view n s"
    using process_changelog_view_other [OF wf cl] by blast
  from well_formed_previous [OF wf] obtain files where
    fi: "files_items (loaded_manifest w d) = Some files"
    and pk: "previous_files (loaded_manifest w d) = Inr (map fst files)"
    by blast
  note r = main_result [OF disc ne s' [unfolded s_def] pk]
  have nm: "n \<noteq> MANIFEST_FILE"
    using fetch_filename [OF fetch] safe_filename_not_manifest [of p] by simp
  from v vs have f: "n \<in> fetched_files s'" by (simp add: view_def)
  from v vs have m: "map_of (new_files s') n
      = Some (doc_entry p (JStr (sha256_hex w c)) (last_updated_for w (JObj e) c))"
    by (simp add: view_def)
  from v vs have wr: "(n \<in> set (written s')) = content_has_changed w c (entry_hash (JObj e))"
    by (simp add: view_def initial_state_def)
  from v vs have dk: "disk s' n
      = (if content_has_changed w c (entry_hash (JObj e)) then Some c else d n)"
    by (simp add: view_def initial_state_def)
  from r(3) m show "\<exists>m. saved_manifest (main w d) = Some m
           \<and> map_of m n
               = Some (doc_entry p (JStr (sha256_hex w c)) (last_updated_for w (JObj e) c))"
    by simp
  from r(4) wr show "(n \<in> set (writes (main w d)))
      = content_has_changed w c (entry_hash (JObj e))"
    by simp
  show "final_disk (main w d) n
           = (if content_has_changed w c (entry_hash (JObj e)) then Some c else d n)"
    unfolding r(5) using nm f dk by simp
qed

lemma retry_after_sleep_same_origin:
  "max_sleep w' = max_sleep w \<Longrightarrow> retry_after_sleep w' h = retry_after_sleep w h"
  by (cases h) simp_all

lemma discover_attempts_same_origin:
  "get w' = get w \<Longrightarrow> unix_time w' = unix_time w \<Longrightarrow>
   discover_attempts w' ks = discover_attempts w ks"
  by (induction ks) (simp_all split: reply.splits header.splits)

lemma fetch_attempts_same_origin:
  "get w' = get w \<Longrightarrow> max_sleep w' = max_sleep w \<Longrightarrow>
   fetch_attempts w' url fn ks = fetch_attempts w url fn ks"
  by (induction ks)
    (simp_all add: retry_after_sleep_same_origin [of w' w] split: reply.splits sum.splits)

lemma changelog_attempts_same_origin:
  "get w' = get w \<Longrightarrow> max_sleep w' = max_sleep w \<Longrightarrow>
   changelog_attempts w' ks = changelog_attempts w ks"
  by (induction ks)
    (simp_all add: retry_after_sleep_same_origin [of w' w] split: reply.splits sum.splits)

lemma unchanged_entry:
  assumes "map_of e ''hash'' = Some (JStr (sha256_hex w c))"
  shows "\<not> content_has_changed w c (entry_hash (JObj e))"
    and "last_updated_for w (JObj e) c
           = (case map_of e ''last_updated'' of None \<Rightarrow> JStr (now_iso w) | Some t \<Rightarrow> t)"
  using assms
  by (simp_all add: content_has_changed_def entry_hash_def entry_field_def last_updated_for_def)

lemma list_all_update:
  "P (k, v) \<Longrightarrow> list_all P al \<Longrightarrow> list_all P (AList.update k v al)"
  by (induction al) auto

lemma record_success_dicts:
  assumes "list_all (\<lambda>item. is_dict (snd item)) (new_files s)" and "is_dict e"
  shows "list_all (\<lambda>item. is_dict (snd item)) (new_files (record_success s fn e))"
  using assms by (simp add: record_success_def list_all_update)

lemma save_if_changed_new_files:
  assumes "save_if_changed w manifest s fn c = Inr (s', h, t)"
  shows "new_files s' = new_files s"
  using save_if_changed_state [OF assms] by auto

lemma process_doc_dicts:
  assumes "list_all (\<lambda>item. is_dict (snd item)) (new_files s)"
  shows "list_all (\<lambda>item. is_dict (snd item)) (new_files (process_doc w manifest s p))"
proof (cases "fetch_markdown_content w p")
  case (Inl e)
  with assms show ?thesis by (simp add: process_doc_def record_failure_def)
next
  case (Inr res)
  obtain fn c where "res = (fn, c)" by (cases res)
  with Inr have f: "fetch_markdown_content w p = Inr (fn, c)" by simp
  show ?thesis
  proof (cases "save_if_changed w manifest s fn c")
    case (Inl e)
    with f assms show ?thesis by (simp add: process_doc_def record_failure_def)
  next
    case (Inr r)
    obtain s' h t where "r = (s', h, t)" by (cases r)
    with Inr have sv: "save_if_changed w manifest s fn c = Inr (s', h, t)" by simp
    have "list_all (\<lambda>item. is_dict (snd item)) (new_files s')"
      using assms save_if_changed_new_files [OF sv] by simp
    then have "list_all (\<lambda>item. is_dict (snd item))
        (new_files (record_success s' fn (doc_entry p h t)))"
      by (rule record_success_dicts) (simp add: doc_entry_def)
    with f sv show ?thesis by (simp add: process_doc_def)
  qed
qed

lemma docs_loop_dicts:
  "list_all (\<lambda>item. is_dict (snd item)) (new_files s) \<Longrightarrow>
   list_all (\<lambda>item. is_dict (snd item)) (new_files (foldl (process_doc w manifest) s fs))"
  by (induction fs arbitrary: s) (simp_all add: process_doc_dicts)

lemma process_changelog_dicts:
  assumes "list_all (\<lambda>item. is_dict (snd item)) (new_files s)"
    and "process_changelog w manifest s = Inr s'"
  shows "list_all (\<lambda>item. is_dict (snd item)) (new_files s')"
proof (cases "fetch_changelog w")
  case (Inl e)
  with assms(2) show ?thesis by (simp add: process_changelog_def)
next
  case (Inr cl)
  show ?thesis
  proof (cases cl)
    case None
    with Inr assms show ?thesis by (simp add: process_changelog_def)
  next
    case (Some res)
    obtain fn c where "res = (fn, c)" by (cases res)
    with Some Inr have f: "fetch_changelog w = Inr (Some (fn, c))" by simp
    show ?thesis
    proof (cases "save_if_changed w manifest s fn c")
      case (Inl e)
      with f assms(2) show ?thesis by (simp add: process_changelog_def)
    next
      case (Inr r)
      obtain s1 h t where "r = (s1, h, t)" by (cases r)
      with Inr have sv: "save_if_changed w manifest s fn c = Inr (s1, h, t)" by simp
      have "list_all (\<lambda>item. is_dict (snd item)) (new_files s1)"
        using assms(1) save_if_changed_new_files [OF sv] by simp
      then have "list_all (\<lambda>item. is_dict (snd item))
          (new_files (record_success s1 fn (changelog_entry h t)))"
        by (rule record_success_dicts) (simp add: changelog_entry_def)
      moreover have "s' = record_success s1 fn (changelog_entry h t)"
        using f sv assms(2) by (simp add: process_changelog_def)
      ultimately show ?thesis by simp
    qed
  qed
qed

lemma saved_manifest_cases:
  assumes "saved_manifest (main w d) = Some m"
  shows "\<exists>fs s'. discover_docs_from_github w = Inr fs \<and> fs \<noteq> []
           \<and> process_changelog w (loaded_manifest w d)
                 (foldl (process_doc w (loaded_manifest w d)) (initial_state d) fs) = Inr s'
           \<and> m = new_files s'"
proof (cases "discover_docs_from_github w")
  case (Inl e)
  then have "main w d = ended_early (initial_state d)" by (simp add: main_def)
  with assms show ?thesis by (simp add: ended_early_def)
next
  case (Inr fs)
  note disc = this
  show ?thesis
  proof (cases "fs = []")
    case True
    with disc have "main w d = ended_early (initial_state d)" by (simp add: main_def)
    with assms show ?thesis by (simp add: ended_early_def)
  next
    case False
    define s where "s = foldl (process_doc w (loaded_manifest w d)) (initial_state d) fs"
    show ?thesis
    proof (cases "process_changelog w (loaded_manifest w d) s")
      case (Inl e)
      with disc False have "main w d = ended_early s"
        by (simp add: main_def loaded_manifest_def s_def Let_def)
      with assms show ?thesis by (simp add: ended_early_def)
    next
      case (Inr s')
      note pc = this
      show ?thesis
      proof (cases "cleanup_old_files (disk s') (fetched_files s') (loaded_manifest w d)")
        case (Inl e)
        with disc False pc have "main w d = ended_early s'"
          by (simp add: main_def loaded_manifest_def s_def Let_def)
        with assms show ?thesis by (simp add: ended_early_def)
      next
        case (Inr d')
        with disc False pc have "saved_manifest (main w d) = Some (new_files s')"
          by (simp add: main_def loaded_manifest_def s_def Let_def)
        with assms have "m = new_files s'" by simp
        with disc False pc [unfolded s_def] show ?thesis by simp
      qed
    qed
  qed
qed

lemma saved_manifest_dicts:
  assumes "saved_manifest (main w d) = Some m"
  shows "list_all (\<lambda>item. is_dict (snd item)) m"
proof -
  from saved_manifest_cases [OF assms] obtain fs s' where
    pc: "process_changelog w (loaded_manifest w d)
           (foldl (process_doc w (loaded_manifest w d)) (initial_state d) fs) = Inr s'"
    and m: "m = new_files s'"
    by blast
  have "list_all (\<lambda>item. is_dict (snd item))
      (new_files (foldl (process_doc w (loaded_manifest w d)) (initial_state d) fs))"
    by (rule docs_loop_dicts) (simp add: initial_state_def)
  then have "list_all (\<lambda>item. is_dict (snd item)) (new_files s')"
    using pc by (rule process_changelog_dicts)
  with m show ?thesis by simp
qed

lemma doc_entry_fields:
  "doc_entry p h t = JObj [(''original_path'', JStr p),
      (''github_url'', JStr (''https://github.com/google-gemini/gemini-cli/blob/main/'' @ p)),
      (''hash'', h), (''last_updated'', t)]"
  by (simp add: doc_entry_def)

text \<open>
  Claim C1. Let the previous manifest have the shape that the script writes. Let a
  discovered path be fetched, let no other discovered path have its logical name \<open>n\<close>,
  let the changelog fetch raise nothing and the changelog not be stored under \<open>n\<close>. If
  the hash of the fetched content equals the hash that the prior manifest records for
  \<open>n\<close>, the run never writes \<open>n\<close>, leaves the file \<open>n\<close> as it was, and the saved entry
  has the prior hash and the prior \<open>last_updated\<close> (the clock reading when the prior
  entry has none). Hence a second run on the same origin, started from the directory that
  the first run left and loading the manifest that the first run saved, does not write
  \<open>n\<close> and saves the same entry for \<open>n\<close>.
\<close>

theorem unchanged_content_not_rewritten:
  assumes wf: "well_formed (loaded_manifest w d)"
    and disc: "discover_docs_from_github w = Inr fs"
    and p: "p \<in> set fs"
    and fetch: "fetch_markdown_content w p = Inr (n, c)"
    and unique: "\<forall>q \<in> set fs. path_to_safe_filename q = n \<longrightarrow> q = p"
    and cl: "fetch_changelog w = Inr cl" "n = ''changelog.md'' \<longrightarrow> cl = None"
  shows "(files_items (loaded_manifest w d) = Some prev \<and> map_of prev n = Some (JObj e)
            \<and> map_of e ''hash'' = Some (JStr (sha256_hex w c)) \<longrightarrow>
            n \<notin> set (writes (main w d))
            \<and> final_disk (main w d) n = d n
            \<and> (\<exists>m e'. saved_manifest (main w d) = Some m \<and> map_of m n = Some (JObj e')
                  \<and> map_of e' ''hash'' = map_of e ''hash''
                  \<and> map_of e' ''last_updated''
                      = Some (case map_of e ''last_updated'' of
                                None \<Rightarrow> JStr (now_iso w) | Some t \<Rightarrow> t)))
         \<and> (saved_manifest (main w d) = Some m1
            \<and> get w' = get w \<and> unix_time w' = unix_time w \<and> sha256_hex w' = sha256_hex w
            \<and> max_sleep w' = max_sleep w
            \<and> files_items (loaded_manifest w' (final_disk (main w d))) = Some m1 \<longrightarrow>
            n \<notin> set (writes (main w' (final_disk (main w d))))
            \<and> (\<exists>m2. saved_manifest (main w' (final_disk (main w d))) = Some m2
                  \<and> map_of m2 n = map_of m1 n))"
proof (intro conjI impI)
  assume old: "files_items (loaded_manifest w d) = Some prev \<and> map_of prev n = Some (JObj e)
      \<and> map_of e ''hash'' = Some (JStr (sha256_hex w c))"
  then have fi: "files_items (loaded_manifest w d) = Some prev"
    and pn: "map_of prev n = Some (JObj e)"
    and eh: "map_of e ''hash'' = Some (JStr (sha256_hex w c))"
    by blast+
  have entry: "old_entry_of (loaded_manifest w d) n = Inr (JObj e)"
    using fi pn by (rule well_formed_entry_found)
  note u = unchanged_entry [OF eh]
  note v = main_view_unique [OF wf entry disc p fetch unique cl]
  from u(1) v(2) show "n \<notin> set (writes (main w d))" by simp
  from u(1) v(3) show "final_disk (main w d) n = d n" by simp
  from v(1) obtain m where m: "saved_manifest (main w d) = Some m"
    "map_of m n = Some (doc_entry p (JStr (sha256_hex w c)) (last_updated_for w (JObj e) c))"
    by blast
  define e' where "e' = [(''original_path'', JStr p),
      (''github_url'', JStr (''https://github.com/google-gemini/gemini-cli/blob/main/'' @ p)),
      (''hash'', JStr (sha256_hex w c)),
      (''last_updated'', last_updated_for w (JObj e) c)]"
  have de: "doc_entry p (JStr (sha256_hex w c)) (last_updated_for w (JObj e) c) = JObj e'"
    unfolding e'_def by (rule doc_entry_fields)
  have h': "map_of e' ''hash'' = map_of e ''hash''"
    unfolding e'_def eh by simp
  have l': "map_of e' ''last_updated''
      = Some (case map_of e ''last_updated'' of None \<Rightarrow> JStr (now_iso w) | Some t \<Rightarrow> t)"
    unfolding e'_def u(2) [symmetric] by simp
  from m(2) de have "map_of m n = Some (JObj e')" by simp
  with m(1) h' l'
  show "\<exists>m e'. saved_manifest (main w d) = Some m \<and> map_of m n = Some (JObj e')
      \<and> map_of e' ''hash'' = map_of e ''hash''
      \<and> map_of e' ''last_updated''
          = Some (case map_of e ''last_updated'' of None \<Rightarrow> JStr (now_iso w) | Some t \<Rightarrow> t)"
    by blast
next
  assume a: "saved_manifest (main w d) = Some m1
      \<and> get w' = get w \<and> unix_time w' = unix_time w \<and> sha256_hex w' = sha256_hex w
      \<and> max_sleep w' = max_sleep w
      \<and> files_items (loaded_manifest w' (final_disk (main w d))) = Some m1"
  then have sm: "saved_manifest (main w d) = Some m1" and g: "get w' = get w"
    and ut: "unix_time w' = unix_time w" and sh: "sha256_hex w' = sha256_hex w"
    and ms: "max_sleep w' = max_sleep w"
    and fi2: "files_items (loaded_manifest w' (final_disk (main w d))) = Some m1"
    by blast+
  define d1 where "d1 = final_disk (main w d)"
  from well_formed_entry [OF wf] obtain e0 where
    e0: "old_entry_of (loaded_manifest w d) n = Inr (JObj e0)"
    by blast
  define t1 where "t1 = last_updated_for w (JObj e0) c"
  define e1 where "e1 = [(''original_path'', JStr p),
      (''github_url'', JStr (''https://github.com/google-gemini/gemini-cli/blob/main/'' @ p)),
      (''hash'', JStr (sha256_hex w c)),
      (''last_updated'', t1)]"
  have de: "doc_entry p (JStr (sha256_hex w c)) t1 = JObj e1"
    unfolding e1_def by (rule doc_entry_fields)
  from main_view_unique(1) [OF wf e0 disc p fetch unique cl]
  obtain m where m: "saved_manifest (main w d) = Some m"
    "map_of m n = Some (doc_entry p (JStr (sha256_hex w c)) t1)"
    unfolding t1_def by blast
  from m sm de have m1: "map_of m1 n = Some (JObj e1)" by simp
  have wf2: "well_formed (loaded_manifest w' d1)"
    using fi2 saved_manifest_dicts [OF sm] by (simp add: well_formed_def d1_def)
  have entry2: "old_entry_of (loaded_manifest w' d1) n = Inr (JObj e1)"
    using fi2 [folded d1_def] m1 by (rule well_formed_entry_found)
  have disc': "discover_docs_from_github w' = Inr fs"
    unfolding discover_docs_from_github_def discover_attempts_same_origin [OF g ut]
    using disc by (simp only: discover_docs_from_github_def)
  have fetch': "fetch_markdown_content w' p = Inr (n, c)"
    unfolding fetch_markdown_content_def fetch_attempts_same_origin [OF g ms]
    using fetch by (simp only: fetch_markdown_content_def)
  have cl': "fetch_changelog w' = Inr cl"
    unfolding fetch_changelog_def changelog_attempts_same_origin [OF g ms]
    using cl(1) by (simp only: fetch_changelog_def)
  have h: "map_of e1 ''hash'' = Some (JStr (sha256_hex w' c))"
    unfolding e1_def sh by simp
  have lu1: "map_of e1 ''last_updated'' = Some t1" unfolding e1_def by simp
  note u = unchanged_entry [OF h]
  note v = main_view_unique [OF wf2 entry2 disc' p fetch' unique cl' cl(2)]
  from u(1) v(2) show "n \<notin> set (writes (main w' (final_disk (main w d))))"
    unfolding d1_def by simp
  have lu: "last_updated_for w' (JObj e1) c = t1"
    unfolding u(2) lu1 by simp
  from v(1) obtain m2 where m2: "saved_manifest (main w' d1) = Some m2"
    "map_of m2 n = Some (doc_entry p (JStr (sha256_hex w' c)) (last_updated_for w' (JObj e1) c))"
    by blast
  from m2(2) have "map_of m2 n = map_of m1 n" unfolding lu sh m1 de by assumption
  with m2(1) show "\<exists>m2. saved_manifest (main w' (final_disk (main w d))) = Some m2
      \<and> map_of m2 n = map_of m1 n"
    unfolding d1_def by blast
qed

theorem unchanged_content_not_rewritten_witness:
  "well_formed (loaded_manifest one_doc_world one_doc_directory)
   \<and> discover_docs_from_github one_doc_world = Inr [''docs/a.md'']
   \<and> fetch_markdown_content one_doc_world ''docs/a.md'' = Inr (''a.md'', sample_markdown)
   \<and> fetch_changelog one_doc_world = Inr None
   \<and> files_items (loaded_manifest one_doc_world one_doc_directory)
       = Some [(''a.md'', sample_entry ''docs/a.md'')]
   \<and> ''a.md'' \<notin> set (writes one_doc_first_run)
   \<and> final_disk one_doc_first_run ''a.md'' = Some sample_markdown
   \<and> saved_manifest one_doc_first_run = Some [(''a.md'', sample_entry ''docs/a.md'')]
   \<and> files_items (loaded_manifest one_doc_world_later (final_disk one_doc_first_run))
       = Some [(''a.md'', sample_entry ''docs/a.md'')]
   \<and> ''a.md'' \<notin> set (writes (main one_doc_world_later (final_disk one_doc_first_run)))
   \<and> (\<exists>m2. saved_manifest (main one_doc_world_later (final_disk one_doc_first_run)) = Some m2
          \<and> map_of m2 ''a.md'' = Some (sample_entry ''docs/a.md''))"
proof -
  define old where "old = [(''original_path'', JStr ''docs/a.md''),
      (''github_url'', JStr ''https://github.com/google-gemini/gemini-cli/blob/main/docs/a.md''),
      (''hash'', JStr sample_markdown),
      (''last_updated'', JStr ''2025-01-01T00:00:00'')]"
  have se: "sample_entry ''docs/a.md'' = JObj old"
    by (simp add: sample_entry_def doc_entry_def old_def)
  have wf: "well_formed (loaded_manifest one_doc_world one_doc_directory)" by code_simp
  have disc: "discover_docs_from_github one_doc_world = Inr [''docs/a.md'']" by code_simp
  have p: "''docs/a.md'' \<in> set [''docs/a.md'']" by simp
  have fetch: "fetch_markdown_content one_doc_world ''docs/a.md'' = Inr (''a.md'', sample_markdown)"
    by code_simp
  have unique: "\<forall>q \<in> set [''docs/a.md'']. path_to_safe_filename q = ''a.md'' \<longrightarrow> q = ''docs/a.md''"
    by simp
  have cl: "fetch_changelog one_doc_world = Inr None" by code_simp
  have c2: "''a.md'' = ''changelog.md'' \<longrightarrow> (None :: (string \<times> string) option) = None" by simp
  have fi: "files_items (loaded_manifest one_doc_world one_doc_directory)
      = Some [(''a.md'', sample_entry ''docs/a.md'')]"
    by code_simp
  have pn: "map_of [(''a.md'', sample_entry ''docs/a.md'')] ''a.md'' = Some (JObj old)"
    by (simp add: se)
  have eh: "map_of old ''hash'' = Some (JStr (sha256_hex one_doc_world sample_markdown))"
    by (simp add: old_def one_doc_world_def sample_world_def sample_origin_def)
  have d0: "one_doc_directory ''a.md'' = Some sample_markdown" by code_simp
  have sm: "saved_manifest one_doc_first_run = Some [(''a.md'', sample_entry ''docs/a.md'')]"
    by code_simp
  have same: "get one_doc_world_later = get one_doc_world"
    "unix_time one_doc_world_later = unix_time one_doc_world"
    "sha256_hex one_doc_world_later = sha256_hex one_doc_world"
    "max_sleep one_doc_world_later = max_sleep one_doc_world"
    by (simp_all add: one_doc_world_later_def reloading_def max_sleep_def)
  have fi2: "files_items (loaded_manifest one_doc_world_later (final_disk one_doc_first_run))
      = Some [(''a.md'', sample_entry ''docs/a.md'')]"
    by code_simp
  note t = unchanged_content_not_rewritten [OF wf disc p fetch unique cl c2,
      of "[(''a.md'', sample_entry ''docs/a.md'')]" old "[(''a.md'', sample_entry ''docs/a.md'')]"
        one_doc_world_later]
  from t [THEN conjunct1] fi pn eh
  have first: "''a.md'' \<notin> set (writes (main one_doc_world one_doc_directory))
      \<and> final_disk (main one_doc_world one_doc_directory) ''a.md'' = one_doc_directory ''a.md''"
    by blast
  from first have w1: "''a.md'' \<notin> set (writes one_doc_first_run)"
    unfolding one_doc_first_run_def by (rule conjunct1)
  from first d0 have f1: "final_disk one_doc_first_run ''a.md'' = Some sample_markdown"
    unfolding one_doc_first_run_def by simp
  from t [THEN conjunct2] sm [unfolded one_doc_first_run_def] same
    fi2 [unfolded one_doc_first_run_def]
  have second: "''a.md'' \<notin> set (writes (main one_doc_world_later
          (final_disk (main one_doc_world one_doc_directory))))
      \<and> (\<exists>m2. saved_manifest (main one_doc_world_later
            (final_disk (main one_doc_world one_doc_directory))) = Some m2
            \<and> map_of m2 ''a.md'' = map_of [(''a.md'', sample_entry ''docs/a.md'')] ''a.md'')"
    by blast
  have mo: "map_of [(''a.md'', sample_entry ''docs/a.md'')] ''a.md''
      = Some (sample_entry ''docs/a.md'')"
    by simp
  from second have w2: "''a.md'' \<notin> set (writes (main one_doc_world_later
      (final_disk one_doc_first_run)))"
    unfolding one_doc_first_run_def by (rule conjunct1)
  from second have s2: "\<exists>m2. saved_manifest (main one_doc_world_later
        (final_disk one_doc_first_run)) = Some m2
      \<and> map_of m2 ''a.md'' = Some (sample_entry ''docs/a.md'')"
    unfolding one_doc_first_run_def mo by (rule conjunct2)
  show ?thesis by (intro conjI; fact)
qed

text \<open>
  Two runs on the same origin with the paths \<open>docs/a/b.md\<close> and \<open>docs/a__b.md\<close>; the
  second run loads the manifest that the first run saved. In the second run the content
  fetched for \<open>docs/a__b.md\<close> has the hash that the first run recorded for its logical
  name \<open>a__b.md\<close>, and the entry is carried forward; yet the second run writes the file
  \<open>a__b.md\<close>, with the content of \<open>docs/a/b.md\<close>.
\<close>

theorem unchanged_content_file_rewritten:
  "fetch_markdown_content name_clash_world ''docs/a__b.md'' = Inr (''a__b.md'', other_markdown)
   \<and> recorded_hash name_clash_first_run ''a__b.md''
       = Some (JStr (sha256_hex name_clash_world other_markdown))
   \<and> final_disk name_clash_first_run ''a__b.md'' = Some other_markdown
   \<and> files_items (loaded_manifest (reloading name_clash_world name_clash_first_run)
                    (final_disk name_clash_first_run))
       = saved_manifest name_clash_first_run
   \<and> writes name_clash_second_run = [''a__b.md'']
   \<and> final_disk name_clash_second_run ''a__b.md'' = Some sample_markdown
   \<and> recorded_hash name_clash_second_run ''a__b.md''
       = Some (JStr (sha256_hex name_clash_world other_markdown))
   \<and> recorded_last_updated name_clash_second_run ''a__b.md''
       = recorded_last_updated name_clash_first_run ''a__b.md''"
  by code_simp

end
